theory Spec2Isabelle
  imports Main "HOL-Library.Sublist"
begin

section \<open>The signer service\<close>

text \<open>
  This theory follows the Android part of the signer service of the tool: the extraction of
  the original signature, the analysis of the manifest, the choice of the injection
  strategy, the register count of the injected methods, the partition chosen for the helper
  classes, the merge into the original container and the pipeline that drives them.
  Everything the service asks of the outside (external commands, the decompiled tree, the
  names of temporary directories) is an explicit argument of the function that asks, so
  each function is a function of its inputs; every error the source throws is a value.
\<close>

section \<open>Strings and the regular expressions of the service\<close>

text \<open>
  A JavaScript string is modelled as a \<^typ>\<open>string\<close>: one \<^typ>\<open>char\<close> per code unit, for
  code units below 256. Every literal in the patterns of the modelled functions is ASCII;
  on this domain the class \<^verbatim>\<open>\s\<close> is the set below and \<^verbatim>\<open>\d\<close> is \<^verbatim>\<open>0-9\<close>.
\<close>

definition is_space :: "char \<Rightarrow> bool" where
  "is_space c = (of_char c \<in> {9::nat, 10, 11, 12, 13, 32, 160})"

definition is_digit :: "char \<Rightarrow> bool" where
  "is_digit c = (48 \<le> (of_char c :: nat) \<and> (of_char c :: nat) \<le> 57)"

definition is_quote :: "char \<Rightarrow> bool" where
  "is_quote c = (c = CHR 0x22 \<or> c = CHR 0x27)"

definition lower_ascii :: "char \<Rightarrow> char" where
  "lower_ascii c =
     (if 65 \<le> (of_char c :: nat) \<and> (of_char c :: nat) \<le> 90
      then char_of (of_char c + (32::nat)) else c)"

definition nl :: string where
  "nl = [CHR 0x0A]"

text \<open>\<^verbatim>\<open>s.startsWith(p)\<close> and \<^verbatim>\<open>s.endsWith(p)\<close>.\<close>

definition startsWith :: "string \<Rightarrow> string \<Rightarrow> bool" where
  "startsWith s p = prefix p s"

definition endsWith :: "string \<Rightarrow> string \<Rightarrow> bool" where
  "endsWith s p = suffix p s"

text \<open>
  An unanchored search, as \<^verbatim>\<open>String.prototype.match\<close> and \<^verbatim>\<open>indexOf\<close> run it: the
  matcher \<open>f\<close> is tried at every position from the left, on the rest of the string, and
  the first position where it answers gives the match and its index.
\<close>

fun search :: "(string \<Rightarrow> 'a option) \<Rightarrow> string \<Rightarrow> (nat \<times> 'a) option" where
  "search f [] = map_option (Pair 0) (f [])"
| "search f (c # cs) =
     (case f (c # cs) of
        Some v \<Rightarrow> Some (0, v)
      | None \<Rightarrow> map_option (\<lambda>(i, v). (Suc i, v)) (search f cs))"

definition lit :: "string \<Rightarrow> string \<Rightarrow> unit option" where
  "lit p s = (if prefix p s then Some () else None)"

definition indexOf :: "string \<Rightarrow> string \<Rightarrow> nat option" where
  "indexOf s p = map_option fst (search (lit p) s)"

definition includesStr :: "string \<Rightarrow> string \<Rightarrow> bool" where
  "includesStr s p = (indexOf s p \<noteq> None)"

text \<open>A literal matched without regard to ASCII case (the \<^verbatim>\<open>i\<close> flag); \<open>p\<close> is in lower case.\<close>

fun ci_prefix :: "string \<Rightarrow> string \<Rightarrow> bool" where
  "ci_prefix [] s = True"
| "ci_prefix (p # ps) [] = False"
| "ci_prefix (p # ps) (c # cs) = (lower_ascii c = p \<and> ci_prefix ps cs)"

section \<open>ManifestAnalyzer: extractApplicationName\<close>

text \<open>
  The stop pattern
  \<^verbatim>\<open>/<activity|<service|<provider|<receiver|<meta-data|<\/application/i\<close>.
\<close>

definition stopTags :: "string list" where
  "stopTags = [''<activity'', ''<service'', ''<provider'', ''<receiver'', ''<meta-data'',
               ''</application'']"

definition stopPattern :: "string \<Rightarrow> unit option" where
  "stopPattern s = (if list_ex (\<lambda>t. ci_prefix t s) stopTags then Some () else None)"

text \<open>
  The attribute pattern \<^verbatim>\<open>/KEY\s*=\s*["']([^"']+)["']/\<close> tried at one position; the answer
  is capture group 1. Each quantifier is followed by a character outside its class, so the
  greedy choice is the only one that can match and no backtracking is lost.
\<close>

definition attrPattern :: "string \<Rightarrow> string \<Rightarrow> string option" where
  "attrPattern key s =
     (if \<not> prefix key s then None
      else case dropWhile is_space (drop (length key) s) of
             [] \<Rightarrow> None
           | e # r1 \<Rightarrow>
               if e \<noteq> CHR ''='' then None
               else case dropWhile is_space r1 of
                      [] \<Rightarrow> None
                    | q # r2 \<Rightarrow>
                        if \<not> is_quote q then None
                        else let v = takeWhile (\<lambda>c. \<not> is_quote c) r2;
                                 r3 = dropWhile (\<lambda>c. \<not> is_quote c) r2
                             in if v \<noteq> [] \<and> r3 \<noteq> [] then Some v else None)"

definition androidName :: "string \<Rightarrow> string option" where
  "androidName area = map_option snd (search (attrPattern ''android:name'') area)"

text \<open>
  The region the name is looked for in: from the first \<^verbatim>\<open><application\<close> up to the first
  match of the stop pattern after it, or to the end of the text when there is none.
\<close>

definition scanningArea :: "string \<Rightarrow> string option" where
  "scanningArea content =
     (case indexOf content ''<application'' of
        None \<Rightarrow> None
      | Some appStart \<Rightarrow>
          let area = drop appStart content
          in case search stopPattern area of
               Some m \<Rightarrow> Some (take (fst m) area)
             | None \<Rightarrow> Some area)"

definition excludedName :: "string \<Rightarrow> bool" where
  "excludedName name =
     (startsWith name ''@'' \<or> startsWith name ''android.'' \<or> name = ''true'' \<or> name = ''false'')"

definition extractApplicationName :: "string \<Rightarrow> string option" where
  "extractApplicationName content =
     (case scanningArea content of
        None \<Rightarrow> None
      | Some area \<Rightarrow>
          (case androidName area of
             None \<Rightarrow> None
           | Some name \<Rightarrow> if \<not> excludedName name then Some name else None))"

text \<open>\<^verbatim>\<open>normalizeClassName\<close>: a name that begins with a dot is relative to the package.\<close>

definition normalizeClassName :: "string \<Rightarrow> string \<Rightarrow> string" where
  "normalizeClassName className packageName =
     (if startsWith className ''.'' then packageName @ className else className)"

text \<open>
  \<^verbatim>\<open>str.split(sep)\<close> for a non-empty separator: \<open>skip\<close> counts the characters of a
  separator that was just matched and are still to be passed over.
\<close>

fun split_go :: "string \<Rightarrow> nat \<Rightarrow> string \<Rightarrow> string \<Rightarrow> string list" where
  "split_go sep skip acc [] = [rev acc]"
| "split_go sep (Suc k) acc (c # cs) = split_go sep k acc cs"
| "split_go sep 0 acc (c # cs) =
     (if prefix sep (c # cs) then rev acc # split_go sep (length sep - 1) [] cs
      else split_go sep 0 (c # acc) cs)"

definition split :: "string \<Rightarrow> string \<Rightarrow> string list" where
  "split s sep = split_go sep 0 [] s"

fun launchName :: "string list \<Rightarrow> string option" where
  "launchName [] = None"
| "launchName (part # parts) =
     (if includesStr part ''android.intent.action.MAIN'' \<and>
         includesStr part ''android.intent.category.LAUNCHER''
      then (case androidName part of Some n \<Rightarrow> Some n | None \<Rightarrow> launchName parts)
      else launchName parts)"

definition findLaunchActivity :: "string \<Rightarrow> string option" where
  "findLaunchActivity manifestContent = launchName (split manifestContent ''<activity'')"

section \<open>DexMerger: the partition for the helper classes\<close>

text \<open>
  \<^verbatim>\<open>parseInt(digits, 10)\<close> on a string of decimal digits, and the decimal text of a number.
  Numbers are natural numbers; those of JavaScript agree with them below \<open>2 ^ 53\<close>.
\<close>

definition digit_val :: "char \<Rightarrow> nat" where
  "digit_val c = of_char c - 48"

definition parseInt :: "string \<Rightarrow> nat" where
  "parseInt ds = foldl (\<lambda>n c. 10 * n + digit_val c) 0 ds"

definition digit_char :: "nat \<Rightarrow> char" where
  "digit_char d = char_of (48 + d)"

fun show_nat :: "nat \<Rightarrow> string" where
  "show_nat n = (if n < 10 then [digit_char n] else show_nat (n div 10) @ [digit_char (n mod 10)])"

declare show_nat.simps [simp del]

text \<open>\<^verbatim>\<open>/smali_classes(\d+)/\<close> tried at one position; the answer is the number read.\<close>

definition smaliClassesPattern :: "string \<Rightarrow> nat option" where
  "smaliClassesPattern s =
     (if \<not> prefix ''smali_classes'' s then None
      else let ds = takeWhile is_digit (drop 13 s)
           in if ds = [] then None else Some (parseInt ds))"

text \<open>
  Lines 470 to 494 of the hook injection: \<open>listing\<close> is what \<^verbatim>\<open>readdirSync(decodeDir)\<close>
  returns, and the test for the \<^verbatim>\<open>smali\<close> directory is membership in that listing.
\<close>

definition indexStep :: "nat \<Rightarrow> string \<Rightarrow> nat" where
  "indexStep maxIndex d =
     (case search smaliClassesPattern d of
        Some m \<Rightarrow> if snd m > maxIndex then snd m else maxIndex
      | None \<Rightarrow> maxIndex)"

definition scanMaxIndex :: "string list \<Rightarrow> nat" where
  "scanMaxIndex dirs = foldl indexStep 1 dirs"

definition nextSmaliDir :: "string list \<Rightarrow> string" where
  "nextSmaliDir listing =
     (let dirs = filter (\<lambda>d. startsWith d ''smali_classes'') listing;
          maxIndex = scanMaxIndex dirs
      in if dirs = []
         then (if ''smali'' \<in> set listing then ''smali_classes2'' else ''smali'')
         else ''smali_classes'' @ show_nat (maxIndex + 1))"

section \<open>SmaliCodeGenerator: the register count of a patched or created method\<close>

datatype inject_method = AttachBaseContext | OnCreate | ProviderOnCreate | StaticBlock

definition minLocals :: "inject_method \<Rightarrow> nat" where
  "minLocals method =
     (if method = StaticBlock then 6 else (if method = ProviderOnCreate then 3 else 2))"

text \<open>
  \<^verbatim>\<open>/\.locals\s+(\d+)/\<close> tried at one position: the answer is the length of the matched
  text and the digits of group 1.
\<close>

definition localsPattern :: "string \<Rightarrow> (nat \<times> string) option" where
  "localsPattern s =
     (if \<not> prefix ''.locals'' s then None
      else let r = drop 7 s;
               ws = takeWhile is_space r;
               ds = takeWhile is_digit (dropWhile is_space r)
           in if ws \<noteq> [] \<and> ds \<noteq> [] then Some (7 + length ws + length ds, ds) else None)"

text \<open>The count a method header declares: the first \<^verbatim>\<open>.locals\<close> directive in it.\<close>

definition declaredLocals :: "string \<Rightarrow> nat option" where
  "declaredLocals header = map_option (\<lambda>m. parseInt (snd (snd m))) (search localsPattern header)"

text \<open>
  Lines 710 to 723 of \<^verbatim>\<open>injectCodeToSmali\<close>: \<open>header\<close> is the text matched from the
  \<^verbatim>\<open>.method\<close> line up to and including the \<^verbatim>\<open>.locals\<close> directive; the first directive in
  it is replaced by one with the minimum when it declares less.
\<close>

definition raiseLocals :: "inject_method \<Rightarrow> string \<Rightarrow> string" where
  "raiseLocals method header =
     (case search localsPattern header of
        None \<Rightarrow> header
      | Some m \<Rightarrow>
          let count = parseInt (snd (snd m))
          in if count < minLocals method
             then take (fst m) header @ ''.locals '' @ show_nat (minLocals method) @
                  drop (fst m + fst (snd m)) header
             else header)"

text \<open>
  Line 725: the text that takes the place of the matched header, the header followed by
  the injected block on a line of its own. It is inserted as it is written: the header,
  the signature and the package name are taken to hold no \<^verbatim>\<open>$\<close>, which
  \<^verbatim>\<open>String.prototype.replace\<close> would expand.
\<close>

definition injectedText :: "inject_method \<Rightarrow> string \<Rightarrow> string \<Rightarrow> string" where
  "injectedText method header hookCall = raiseLocals method header @ nl @ hookCall"

text \<open>
  Lines 732 to 776: the method appended to a class that does not have it yet. The injected
  block \<open>hookCall\<close> and the name of the super class are parameters of the text.
\<close>

definition newMethod :: "inject_method \<Rightarrow> string \<Rightarrow> string \<Rightarrow> string" where
  "newMethod method superClass hookCall =
     (if method = ProviderOnCreate then
        nl @ ''# virtual methods'' @ nl @
        ''.method public onCreate()Z'' @ nl @
        ''    .locals 3'' @ nl @
        ''    '' @ hookCall @ nl @
        ''    invoke-super {p0}, '' @ superClass @ ''->onCreate()Z'' @ nl @
        ''    move-result v0'' @ nl @
        ''    return v0'' @ nl @
        ''.end method'' @ nl
      else if method = StaticBlock then
        nl @ ''# direct methods'' @ nl @
        ''.method static constructor <clinit>()V'' @ nl @
        ''    .locals 6'' @ nl @
        ''    '' @ hookCall @ nl @
        ''    return-void'' @ nl @
        ''.end method'' @ nl
      else
        (let superMethodSig =
               (if method = AttachBaseContext then ''attachBaseContext(Landroid/content/Context;)V''
                else ''onCreate(Landroid/os/Bundle;)V'')
         in nl @ ''# virtual methods'' @ nl @
            ''.method protected '' @
              (if method = AttachBaseContext then ''attachBaseContext(Landroid/content/Context;)V''
               else ''onCreate(Landroid/os/Bundle;)V'') @ nl @
            ''    .locals 2'' @ nl @
            ''    '' @ nl @
            ''    '' @ hookCall @ nl @
            nl @
            ''    invoke-super {p0'' @ (if method = AttachBaseContext then '', p1'' else '', p1'') @
              ''}, '' @ superClass @ ''->'' @ superMethodSig @ nl @
            ''    return-void'' @ nl @
            ''.end method'' @ nl))"

section \<open>SignatureExtractor\<close>

text \<open>
  The texts the service logs and returns are kept as byte strings, the UTF-8 encoding of
  the literal in the source. The log sink \<^verbatim>\<open>onLog\<close> is taken to be present, and a log
  is the list of the lines it received, oldest first.
\<close>

definition msgReaderMissing :: string where
  "msgReaderMissing =
     [CHR 0xE8, CHR 0xAD, CHR 0xA6, CHR 0xE5, CHR 0x91, CHR 0x8A, CHR 0x3A, CHR 0x20, CHR 0xE6,
      CHR 0x89, CHR 0xBE, CHR 0xE4, CHR 0xB8, CHR 0x8D, CHR 0xE5, CHR 0x88, CHR 0xB0, CHR 0x20,
      CHR 0x41, CHR 0x70, CHR 0x6B, CHR 0x53, CHR 0x69, CHR 0x67, CHR 0x52, CHR 0x65, CHR 0x61,
      CHR 0x64, CHR 0x65, CHR 0x72, CHR 0x2E, CHR 0x6A, CHR 0x61, CHR 0x72]"

definition msgReaderFailed :: string where
  "msgReaderFailed =
     [CHR 0x41, CHR 0x70, CHR 0x6B, CHR 0x53, CHR 0x69, CHR 0x67, CHR 0x52, CHR 0x65, CHR 0x61,
      CHR 0x64, CHR 0x65, CHR 0x72, CHR 0x20, CHR 0xE6, CHR 0x89, CHR 0xA7, CHR 0xE8, CHR 0xA1,
      CHR 0x8C, CHR 0xE5, CHR 0xA4, CHR 0xB1, CHR 0xE8, CHR 0xB4, CHR 0xA5, CHR 0x3A, CHR 0x20]"

definition msgUsingReader :: string where
  "msgUsingReader =
     [CHR 0xE6, CHR 0xAD, CHR 0xA3, CHR 0xE5, CHR 0x9C, CHR 0xA8, CHR 0xE4, CHR 0xBD, CHR 0xBF,
      CHR 0xE7, CHR 0x94, CHR 0xA8, CHR 0x20, CHR 0x41, CHR 0x70, CHR 0x6B, CHR 0x53, CHR 0x69,
      CHR 0x67, CHR 0x52, CHR 0x65, CHR 0x61, CHR 0x64, CHR 0x65, CHR 0x72, CHR 0x20, CHR 0xE6,
      CHR 0x8F, CHR 0x90, CHR 0xE5, CHR 0x8F, CHR 0x96, CHR 0xE7, CHR 0xAD, CHR 0xBE, CHR 0xE5,
      CHR 0x90, CHR 0x8D, CHR 0x2E, CHR 0x2E, CHR 0x2E]"

definition msgExtracting :: string where
  "msgExtracting =
     [CHR 0xE6, CHR 0xAD, CHR 0xA3, CHR 0xE5, CHR 0x9C, CHR 0xA8, CHR 0xE6, CHR 0x8F, CHR 0x90,
      CHR 0xE5, CHR 0x8F, CHR 0x96, CHR 0xE5, CHR 0x8E, CHR 0x9F, CHR 0xE5, CHR 0xA7, CHR 0x8B,
      CHR 0xE7, CHR 0xAD, CHR 0xBE, CHR 0xE5, CHR 0x90, CHR 0x8D, CHR 0x2E, CHR 0x2E, CHR 0x2E]"

definition warnNoSignature :: string where
  "warnNoSignature =
     [CHR 0xE8, CHR 0xAD, CHR 0xA6, CHR 0xE5, CHR 0x91, CHR 0x8A, CHR 0x3A, CHR 0x20, CHR 0xE6,
      CHR 0x97, CHR 0xA0, CHR 0xE6, CHR 0xB3, CHR 0x95, CHR 0xE6, CHR 0x8F, CHR 0x90, CHR 0xE5,
      CHR 0x8F, CHR 0x96, CHR 0xE5, CHR 0x8E, CHR 0x9F, CHR 0xE5, CHR 0xA7, CHR 0x8B, CHR 0xE7,
      CHR 0xAD, CHR 0xBE, CHR 0xE5, CHR 0x90, CHR 0x8D, CHR 0xEF, CHR 0xBC, CHR 0x8C, CHR 0xE7,
      CHR 0x94, CHR 0x9F, CHR 0xE6, CHR 0x88, CHR 0x90, CHR 0xE7, CHR 0x9A, CHR 0x84, CHR 0x20,
      CHR 0x41, CHR 0x50, CHR 0x4B, CHR 0x20, CHR 0xE5, CHR 0x8F, CHR 0xAF, CHR 0xE8, CHR 0x83,
      CHR 0xBD, CHR 0xE6, CHR 0x97, CHR 0xA0, CHR 0xE6, CHR 0xB3, CHR 0x95, CHR 0xE9, CHR 0x80,
      CHR 0x9A, CHR 0xE8, CHR 0xBF, CHR 0x87, CHR 0xE7, CHR 0xAD, CHR 0xBE, CHR 0xE5, CHR 0x90,
      CHR 0x8D, CHR 0xE9, CHR 0xAA, CHR 0x8C, CHR 0xE8, CHR 0xAF, CHR 0x81]"

definition msgExtractedLength :: string where
  "msgExtractedLength =
     [CHR 0xE6, CHR 0x8F, CHR 0x90, CHR 0xE5, CHR 0x8F, CHR 0x96, CHR 0xE7, CHR 0xAD, CHR 0xBE,
      CHR 0xE5, CHR 0x90, CHR 0x8D, CHR 0xE6, CHR 0x88, CHR 0x90, CHR 0xE5, CHR 0x8A, CHR 0x9F,
      CHR 0x20, CHR 0x28, CHR 0xE9, CHR 0x95, CHR 0xBF, CHR 0xE5, CHR 0xBA, CHR 0xA6, CHR 0x3A,
      CHR 0x20]"

text \<open>
  What the extraction reads from outside: whether the reader's jar is there, what running it
  gives (\<open>Inl\<close> the error text when the command fails, \<open>Inr\<close> its standard output), the
  output of \<^verbatim>\<open>unzip -l\<close> on the package and the bytes \<^verbatim>\<open>unzip -p\<close> gives for an entry
  (\<open>None\<close> when the command fails).
\<close>

record sig_env =
  apkSigReaderJar :: bool
  apkSigReaderRun :: "string + string"
  unzipListing :: "string option"
  unzipEntry :: "string \<Rightarrow> string option"

definition trim :: "string \<Rightarrow> string" where
  "trim s = rev (dropWhile is_space (rev (dropWhile is_space s)))"

definition is_hex :: "char \<Rightarrow> bool" where
  "is_hex c =
     (is_digit c \<or> (97 \<le> (of_char c :: nat) \<and> (of_char c :: nat) \<le> 102)
                 \<or> (65 \<le> (of_char c :: nat) \<and> (of_char c :: nat) \<le> 70))"

definition is_lower_hex :: "char \<Rightarrow> bool" where
  "is_lower_hex c = (is_digit c \<or> (97 \<le> (of_char c :: nat) \<and> (of_char c :: nat) \<le> 102))"

text \<open>\<^verbatim>\<open>getCertHexUsingApkSig\<close>: the value returned and the lines logged.\<close>

definition getCertHexUsingApkSig :: "sig_env \<Rightarrow> string \<times> string list" where
  "getCertHexUsingApkSig env =
     (if \<not> apkSigReaderJar env then (''00'', [msgReaderMissing])
      else case apkSigReaderRun env of
             Inl e \<Rightarrow> (''00'', [msgReaderFailed @ e])
           | Inr stdout \<Rightarrow>
               let output = trim stdout
               in if output \<noteq> [] \<and> list_all is_hex output
                  then (map lower_ascii output, [])
                  else (''00'', []))"

definition getOriginalSignature :: "sig_env \<Rightarrow> string \<times> string list" where
  "getOriginalSignature env =
     (let r = getCertHexUsingApkSig env in (fst r, msgUsingReader # snd r))"

text \<open>
  \<^verbatim>\<open>getCertRsaHex\<close>, the reader of the legacy signature file. \<^verbatim>\<open>split_ws\<close> is
  \<^verbatim>\<open>split(/\s+/)\<close>; \<^verbatim>\<open>toHex\<close> is \<^verbatim>\<open>buffer.toString('hex')\<close>.
\<close>

fun split_ws :: "bool \<Rightarrow> string \<Rightarrow> string \<Rightarrow> string list" where
  "split_ws in_sep acc [] = [rev acc]"
| "split_ws in_sep acc (c # cs) =
     (if is_space c
      then (if in_sep then split_ws True acc cs else rev acc # split_ws True [] cs)
      else split_ws False (c # acc) cs)"

definition lastPart :: "string \<Rightarrow> string" where
  "lastPart line = last (split_ws False [] (trim line))"

definition isCertFile :: "string \<Rightarrow> bool" where
  "isCertFile fileName =
     (fileName \<noteq> [] \<and> startsWith fileName ''META-INF/'' \<and>
      (endsWith fileName ''.RSA'' \<or> endsWith fileName ''.DSA'' \<or> endsWith fileName ''.EC''))"

definition hexDigit :: "nat \<Rightarrow> char" where
  "hexDigit n = ''0123456789abcdef'' ! n"

definition toHex :: "string \<Rightarrow> string" where
  "toHex buffer =
     concat (map (\<lambda>b. [hexDigit (of_char b div 16), hexDigit (of_char b mod 16)]) buffer)"

definition getCertRsaHex :: "sig_env \<Rightarrow> string" where
  "getCertRsaHex env =
     (case unzipListing env of
        None \<Rightarrow> ''00''
      | Some stdout \<Rightarrow>
          (case find isCertFile (map lastPart (split stdout nl)) of
             None \<Rightarrow> ''00''
           | Some certFile \<Rightarrow>
               (case unzipEntry env certFile of
                  None \<Rightarrow> ''00''
                | Some buffer \<Rightarrow> map lower_ascii (toHex buffer))))"

text \<open>
  Step 0 of \<^verbatim>\<open>injectAndResignApk\<close> (lines 216 to 223): the signature the pipeline goes on
  with, and the lines logged while it was extracted.
\<close>

definition extractSignatureStage :: "sig_env \<Rightarrow> string \<times> string list" where
  "extractSignatureStage env =
     (let r = getOriginalSignature env;
          originalSignature = fst r
      in (originalSignature,
          [msgExtracting] @ snd r @
          [if originalSignature = [] \<or> originalSignature = ''00'' then warnNoSignature
           else msgExtractedLength @ show_nat (length originalSignature) @ '')'' @ nl @
                ''Signature: '' @ originalSignature]))"

section \<open>The files a job leaves behind\<close>

text \<open>
  The part of the file system the pipeline is followed on is the list of the paths that
  exist. A path is its text; a path lies under a directory when it is the directory or
  continues it after a slash. The synchronous file operations of node are taken to succeed
  and to be atomic, except where a definition says otherwise: a copy from a missing source,
  and the writes the source guards with a \<^verbatim>\<open>try\<close> of their own.
\<close>

type_synonym files = "string list"

definition existsSync :: "files \<Rightarrow> string \<Rightarrow> bool" where
  "existsSync fs p = (p \<in> set fs)"

definition create :: "string \<Rightarrow> files \<Rightarrow> files" where
  "create p fs = (if p \<in> set fs then fs else p # fs)"

definition under :: "string \<Rightarrow> string \<Rightarrow> bool" where
  "under d p = (p = d \<or> prefix (d @ ''/'') p)"

definition rmRecursive :: "string \<Rightarrow> files \<Rightarrow> files" where
  "rmRecursive d fs = filter (\<lambda>p. \<not> under d p) fs"

definition joinPath :: "string \<Rightarrow> string \<Rightarrow> string" where
  "joinPath a b = a @ ''/'' @ b"

section \<open>InjectionPlanner: injectHookCode\<close>

datatype strategy = ApplicationHook | ManifestSynthesis | ActivityFallback

datatype hook_error =
    PackageNameNotFound
  | ApplicationClassFileNotFound string
  | InjectionImpossible

definition msgNoPackageName :: string where
  "msgNoPackageName =
     [CHR 0xE6, CHR 0x97, CHR 0xA0, CHR 0xE6, CHR 0xB3, CHR 0x95, CHR 0xE5, CHR 0x9C, CHR 0xA8,
      CHR 0x20, CHR 0x4D, CHR 0x61, CHR 0x6E, CHR 0x69, CHR 0x66, CHR 0x65, CHR 0x73, CHR 0x74,
      CHR 0x20, CHR 0xE4, CHR 0xB8, CHR 0xAD, CHR 0xE6, CHR 0x89, CHR 0xBE, CHR 0xE5, CHR 0x88,
      CHR 0xB0, CHR 0xE5, CHR 0x8C, CHR 0x85, CHR 0xE5, CHR 0x90, CHR 0x8D, CHR 0xEF, CHR 0xBC,
      CHR 0x8C, CHR 0xE4, CHR 0xB8, CHR 0x94, CHR 0xE6, CHR 0x9C, CHR 0xAA, CHR 0xE9, CHR 0x80,
      CHR 0x9A, CHR 0xE8, CHR 0xBF, CHR 0x87, CHR 0x20, CHR 0x61, CHR 0x61, CHR 0x70, CHR 0x74,
      CHR 0x20, CHR 0xE8, CHR 0x8E, CHR 0xB7, CHR 0xE5, CHR 0x8F, CHR 0x96, CHR 0xE5, CHR 0x88,
      CHR 0xB0, CHR 0xE5, CHR 0x8C, CHR 0x85, CHR 0xE5, CHR 0x90, CHR 0x8D]"

definition msgNoApplicationFile :: string where
  "msgNoApplicationFile =
     [CHR 0xE6, CHR 0x97, CHR 0xA0, CHR 0xE6, CHR 0xB3, CHR 0x95, CHR 0xE5, CHR 0xAE, CHR 0x9A,
      CHR 0xE4, CHR 0xBD, CHR 0x8D, CHR 0x20, CHR 0x41, CHR 0x70, CHR 0x70, CHR 0x6C, CHR 0x69,
      CHR 0x63, CHR 0x61, CHR 0x74, CHR 0x69, CHR 0x6F, CHR 0x6E, CHR 0x20, CHR 0xE7, CHR 0xB1,
      CHR 0xBB, CHR 0xE6, CHR 0x96, CHR 0x87, CHR 0xE4, CHR 0xBB, CHR 0xB6, CHR 0x3A, CHR 0x20]"

definition msgInjectionImpossible :: string where
  "msgInjectionImpossible =
     [CHR 0xE6, CHR 0x97, CHR 0xA0, CHR 0xE6, CHR 0xB3, CHR 0x95, CHR 0xE4, CHR 0xBF, CHR 0xAE,
      CHR 0xE6, CHR 0x94, CHR 0xB9, CHR 0x20, CHR 0x4D, CHR 0x61, CHR 0x6E, CHR 0x69, CHR 0x66,
      CHR 0x65, CHR 0x73, CHR 0x74, CHR 0x20, CHR 0xE4, CHR 0xB8, CHR 0x94, CHR 0xE6, CHR 0x97,
      CHR 0xA0, CHR 0xE6, CHR 0xB3, CHR 0x95, CHR 0xE6, CHR 0xB3, CHR 0xA8, CHR 0xE5, CHR 0x85,
      CHR 0xA5, CHR 0x20, CHR 0x41, CHR 0x70, CHR 0x70, CHR 0x6C, CHR 0x69, CHR 0x63, CHR 0x61,
      CHR 0x74, CHR 0x69, CHR 0x6F, CHR 0x6E, CHR 0xEF, CHR 0xBC, CHR 0x8C, CHR 0xE7, CHR 0xAD,
      CHR 0xBE, CHR 0xE5, CHR 0x90, CHR 0x8D, CHR 0xE9, CHR 0xAA, CHR 0x8C, CHR 0xE8, CHR 0xAF,
      CHR 0x81, CHR 0xE5, CHR 0x8F, CHR 0xAF, CHR 0xE8, CHR 0x83, CHR 0xBD, CHR 0xE5, CHR 0xA4,
      CHR 0xB1, CHR 0xE6, CHR 0x95, CHR 0x88]"

definition hookErrorMessage :: "hook_error \<Rightarrow> string" where
  "hookErrorMessage e =
     (case e of
        PackageNameNotFound \<Rightarrow> msgNoPackageName
      | ApplicationClassFileNotFound fullClassName \<Rightarrow> msgNoApplicationFile @ fullClassName
      | InjectionImpossible \<Rightarrow> msgInjectionImpossible)"

text \<open>
  What the injection reads from outside. \<open>axmlPrinter\<close>: \<open>None\<close> when the converter's jar
  is missing, \<open>Some None\<close> when the conversion fails, \<open>Some (Some text)\<close> its output.
  \<open>manifestEditor\<close>: \<open>None\<close> when the editor's jar is missing, else what extracting the
  packed manifest and running the editor on it comes to. \<open>manifestWriteFails\<close> and
  \<open>staticInjectFails\<close>: whether the write of the patched manifest text, and the injection
  into the launch Activity, throw. \<open>dirListing\<close> and \<open>smaliFileExists\<close> describe the
  decompiled tree: the entries of its root, and whether a class file exists in one of
  them. \<open>tmpManifestEdit\<close> is the directory \<^verbatim>\<open>mkdtempSync\<close> makes for the editor.
\<close>

datatype editor_outcome = EditorFails | EditorNoOutput | EditorOutput

record hook_env =
  axmlPrinter :: "string option option"
  manifestEditor :: "editor_outcome option"
  manifestWriteFails :: bool
  staticInjectFails :: bool
  dirListing :: "string list"
  smaliFileExists :: "string \<Rightarrow> string \<Rightarrow> bool"
  tmpManifestEdit :: string

record hook_result =
  strategy :: strategy
  manifestModified :: bool
  binaryManifestPath :: "string option"
  helperDir :: "string option"

text \<open>Lines 309 to 342: the manifest text and whether it still is the packed form.\<close>

definition readManifest :: "hook_env \<Rightarrow> string \<Rightarrow> string \<times> bool" where
  "readManifest env buffer =
     (let r = (if length buffer > 4 \<and> buffer ! 0 = CHR 0x03 \<and> buffer ! 1 = CHR 0x00
               then (case axmlPrinter env of
                       Some (Some stdout) \<Rightarrow> (stdout, False)
                     | Some None \<Rightarrow> ([], True)
                     | None \<Rightarrow> (buffer, True))
               else (buffer, False))
      in (if fst r = [] then buffer else fst r, snd r))"

text \<open>Lines 345 to 353.\<close>

definition resolvePackageName :: "string \<Rightarrow> string \<Rightarrow> hook_error + string" where
  "resolvePackageName packageName manifestContent =
     (if packageName \<noteq> [] then Inr packageName
      else case search (attrPattern ''package'') manifestContent of
             Some m \<Rightarrow> Inr (snd m)
           | None \<Rightarrow> Inl PackageNameNotFound)"

definition findSmaliFile :: "hook_env \<Rightarrow> string \<Rightarrow> string \<Rightarrow> string option" where
  "findSmaliFile env decodeDir className =
     (let classPath = map (\<lambda>c. if c = CHR ''.'' then CHR ''/'' else c) className @ ''.smali'';
          dirs = filter (\<lambda>d. startsWith d ''smali'') (dirListing env)
      in map_option (\<lambda>d. joinPath (joinPath decodeDir d) classPath)
           (find (\<lambda>d. smaliFileExists env d classPath) dirs))"

text \<open>
  Lines 387 to 412, plan A: the packed manifest of the original package is patched by the
  external editor in a temporary directory of its own. The answer is the path of the
  patched manifest when there is one.
\<close>

definition editBinaryManifest :: "hook_env \<Rightarrow> files \<Rightarrow> string option \<times> files" where
  "editBinaryManifest env fs =
     (case manifestEditor env of
        None \<Rightarrow> (None, fs)
      | Some outcome \<Rightarrow>
          let tempDir = tmpManifestEdit env;
              originalManifestPath = joinPath tempDir ''AndroidManifest.xml'';
              modifiedManifestPath = joinPath tempDir ''AndroidManifest_mod.xml'';
              fs1 = create originalManifestPath (create tempDir fs)
          in if outcome = EditorFails then (None, fs1)
             else let fs2 = (if outcome = EditorOutput then create modifiedManifestPath fs1
                             else fs1)
                  in if existsSync fs2 modifiedManifestPath
                     then (Some modifiedManifestPath, fs2) else (None, fs2))"

text \<open>Lines 415 to 436, plan B: the manifest text is patched when it is text.\<close>

definition editTextManifest :: "hook_env \<Rightarrow> string \<Rightarrow> bool \<Rightarrow> bool" where
  "editTextManifest env manifestContent isBinaryManifest =
     (\<not> isBinaryManifest \<and> includesStr manifestContent ''<application'' \<and>
      \<not> manifestWriteFails env)"

text \<open>Lines 443 to 464, the last resort: the static initializer of the launch Activity.\<close>

definition injectLaunchActivity :: "hook_env \<Rightarrow> string \<Rightarrow> string \<Rightarrow> string \<Rightarrow> bool" where
  "injectLaunchActivity env decodeDir manifestContent pkgName =
     (case findLaunchActivity manifestContent of
        None \<Rightarrow> False
      | Some launchActivity \<Rightarrow>
          (case findSmaliFile env decodeDir (normalizeClassName launchActivity pkgName) of
             None \<Rightarrow> False
           | Some smaliPath \<Rightarrow> \<not> staticInjectFails env))"

text \<open>
  Lines 355 to 503: the choice of the strategy. The result is the error thrown or the
  strategy that was carried out, with what the merge step needs and the partition the
  helper classes were written to (none for the last resort, which returns before they are
  written); the files are returned as the function leaves them.
\<close>

definition planInjection ::
  "hook_env \<Rightarrow> string \<Rightarrow> string \<Rightarrow> bool \<Rightarrow> string \<Rightarrow> files \<Rightarrow> (hook_error + hook_result) \<times> files"
where
  "planInjection env decodeDir manifestContent isBinaryManifest pkgName fs =
     (case extractApplicationName manifestContent of
        Some appClass \<Rightarrow>
          (let fullClassName = normalizeClassName appClass pkgName
           in case findSmaliFile env decodeDir fullClassName of
                Some smaliPath \<Rightarrow>
                  (Inr \<lparr>strategy = ApplicationHook, manifestModified = False,
                        binaryManifestPath = None,
                        helperDir = Some (nextSmaliDir (dirListing env))\<rparr>, fs)
              | None \<Rightarrow> (Inl (ApplicationClassFileNotFound fullClassName), fs))
      | None \<Rightarrow>
          (let a = editBinaryManifest env fs;
               fs1 = snd a
           in if fst a \<noteq> None \<or> editTextManifest env manifestContent isBinaryManifest
              then (Inr \<lparr>strategy = ManifestSynthesis, manifestModified = True,
                         binaryManifestPath = fst a,
                         helperDir = Some (nextSmaliDir (dirListing env))\<rparr>, fs1)
              else if injectLaunchActivity env decodeDir manifestContent pkgName
              then (Inr \<lparr>strategy = ActivityFallback, manifestModified = False,
                         binaryManifestPath = None, helperDir = None\<rparr>, fs1)
              else (Inl InjectionImpossible, fs1)))"

definition injectHookCode ::
  "hook_env \<Rightarrow> string \<Rightarrow> string \<Rightarrow> string \<Rightarrow> files \<Rightarrow> (hook_error + hook_result) \<times> files"
where
  "injectHookCode env decodeDir buffer packageName fs =
     (let r = readManifest env buffer
      in case resolvePackageName packageName (fst r) of
           Inl e \<Rightarrow> (Inl e, fs)
         | Inr pkgName \<Rightarrow> planInjection env decodeDir (fst r) (snd r) pkgName fs)"

section \<open>DexMerger: mergeDexIntoOriginalApk on the entries of the containers\<close>









section \<open>ResignOrchestrator: injectAndResignApk\<close>

definition msgProcessFailed :: string where
  "msgProcessFailed =
     [CHR 0xE5, CHR 0xA4, CHR 0x84, CHR 0xE7, CHR 0x90, CHR 0x86, CHR 0xE5, CHR 0xA4, CHR 0xB1,
      CHR 0xE8, CHR 0xB4, CHR 0xA5, CHR 0x3A, CHR 0x20]"

definition msgInjectSignOk :: string where
  "msgInjectSignOk =
     [CHR 0xE6, CHR 0xB3, CHR 0xA8, CHR 0xE5, CHR 0x85, CHR 0xA5, CHR 0xE5, CHR 0xB9, CHR 0xB6,
      CHR 0xE7, CHR 0xAD, CHR 0xBE, CHR 0xE5, CHR 0x90, CHR 0x8D, CHR 0xE6, CHR 0x88, CHR 0x90,
      CHR 0xE5, CHR 0x8A, CHR 0x9F]"

definition msgSignedMissing :: string where
  "msgSignedMissing =
     [CHR 0xE7, CHR 0xAD, CHR 0xBE, CHR 0xE5, CHR 0x90, CHR 0x8D, CHR 0xE5, CHR 0x90, CHR 0x8E,
      CHR 0xE6, CHR 0x96, CHR 0x87, CHR 0xE4, CHR 0xBB, CHR 0xB6, CHR 0xE6, CHR 0x9C, CHR 0xAA,
      CHR 0xE7, CHR 0x94, CHR 0x9F, CHR 0xE6, CHR 0x88, CHR 0x90]"

definition msgSignFailed :: string where
  "msgSignFailed =
     [CHR 0xE7, CHR 0xAD, CHR 0xBE, CHR 0xE5, CHR 0x90, CHR 0x8D, CHR 0xE5, CHR 0xA4, CHR 0xB1,
      CHR 0xE8, CHR 0xB4, CHR 0xA5, CHR 0x3A, CHR 0x20]"

definition msgApkMissing :: string where
  "msgApkMissing =
     [CHR 0x41, CHR 0x50, CHR 0x4B, CHR 0x20, CHR 0xE4, CHR 0xB8, CHR 0x8D, CHR 0xE5, CHR 0xAD,
      CHR 0x98, CHR 0xE5, CHR 0x9C, CHR 0xA8]"

definition msgSignOk :: string where
  "msgSignOk =
     [CHR 0xE7, CHR 0xAD, CHR 0xBE, CHR 0xE5, CHR 0x90, CHR 0x8D, CHR 0xE6, CHR 0x88, CHR 0x90,
      CHR 0xE5, CHR 0x8A, CHR 0x9F]"

record sign_result =
  success :: bool
  message :: string
  outputPath :: "string option"

text \<open>\<^verbatim>\<open>str.replace(p, r)\<close> for a text \<open>p\<close>: the first occurrence is replaced.\<close>

definition replaceFirst :: "string \<Rightarrow> string \<Rightarrow> string \<Rightarrow> string" where
  "replaceFirst p r s =
     (case indexOf s p of
        None \<Rightarrow> s
      | Some i \<Rightarrow> take i s @ r @ drop (i + length p) s)"

text \<open>\<^verbatim>\<open>copyFileSync\<close> throws when the source is missing.\<close>

definition copyFileSync :: "string \<Rightarrow> string \<Rightarrow> files \<Rightarrow> string + files" where
  "copyFileSync src dst fs =
     (if existsSync fs src then Inr (create dst fs)
      else Inl (''ENOENT: no such file or directory, copyfile '' @
                [CHR 0x27] @ src @ [CHR 0x27] @ '' -> '' @ [CHR 0x27] @ dst @ [CHR 0x27]))"

text \<open>
  What a job reads from outside. Each external command is an oracle: \<open>None\<close> when it
  succeeds, \<open>Some\<close> of the error text when it fails. A command that succeeds creates the
  output it was asked for; \<open>signWritesOutput\<close> tells whether the signing tool wrote its
  output file. The three \<open>tmp\<close> fields are the names \<^verbatim>\<open>mkdtempSync\<close> hands out.
\<close>

record job_env =
  sigEnv :: sig_env
  aaptPackageName :: string
  decompileRun :: "string option"
  manifestBuffer :: string
  hookEnv :: hook_env
  recompileRun :: "string option"
  mergeRun :: "string option"
  zipalignExists :: bool
  zipalignRun :: "string option"
  apksignerBatExists :: bool
  apksignerJarExists :: bool
  signRun :: "string option"
  signWritesOutput :: bool
  verifyRun :: "string option"
  tmpInject :: string
  tmpDexMerge :: string

text \<open>\<^verbatim>\<open>resignApk\<close> (lines 81 to 132), with the files it leaves.\<close>

definition resignApk :: "job_env \<Rightarrow> string \<Rightarrow> files \<Rightarrow> sign_result \<times> files" where
  "resignApk env apkPath fs =
     (if apkPath = [] \<or> \<not> existsSync fs apkPath
      then (\<lparr>success = False, message = msgApkMissing, outputPath = None\<rparr>, fs)
      else
        let outputApk = replaceFirst ''.apk'' ''_signed.apk'' apkPath;
            hasApksigner = (apksignerBatExists env \<or> apksignerJarExists env);
            fs1 = (if hasApksigner then fs else create outputApk fs);
            fs2 = (if signWritesOutput env then create outputApk fs1 else fs1)
        in case signRun env of
             Some e \<Rightarrow> (\<lparr>success = False, message = msgSignFailed @ e, outputPath = None\<rparr>, fs2)
           | None \<Rightarrow>
               (case (if hasApksigner then verifyRun env else None) of
                  Some e \<Rightarrow>
                    (\<lparr>success = False, message = msgSignFailed @ e, outputPath = None\<rparr>, fs2)
                | None \<Rightarrow>
                    (\<lparr>success = True, message = msgSignOk, outputPath = Some outputApk\<rparr>, fs2)))"

text \<open>
  The files \<^verbatim>\<open>mergeDexIntoOriginalApk\<close> touches: the copy of the original package, and a
  temporary directory that its \<^verbatim>\<open>finally\<close> removes.
\<close>

definition mergeFiles :: "job_env \<Rightarrow> string \<Rightarrow> string \<Rightarrow> files \<Rightarrow> string option \<times> files" where
  "mergeFiles env originalApk outputApk fs =
     (case copyFileSync originalApk outputApk fs of
        Inl e \<Rightarrow> (Some e, fs)
      | Inr fs1 \<Rightarrow>
          let tempDexDir = tmpDexMerge env;
              fs2 = create tempDexDir fs1
          in (mergeRun env, rmRecursive tempDexDir fs2))"

text \<open>
  The \<^verbatim>\<open>try\<close> block of \<^verbatim>\<open>injectAndResignApk\<close> (lines 216 to 291): \<open>Inl\<close> the text of the
  error thrown, \<open>Inr\<close> the path returned, and the files as the block leaves them.
\<close>

definition pipeline ::
  "job_env \<Rightarrow> string \<Rightarrow> string \<Rightarrow> string \<Rightarrow> files \<Rightarrow> (string + string) \<times> files"
where
  "pipeline env apkPath tempDir outputApk fs =
     (let decodeDir = joinPath tempDir ''decoded'';
          originalSignature = fst (extractSignatureStage (sigEnv env));
          packageName = (if aaptPackageName env \<noteq> [] \<and> aaptPackageName env \<noteq> ''Unknown''
                         then aaptPackageName env else [])
      in case decompileRun env of
           Some e \<Rightarrow> (Inl e, fs)
         | None \<Rightarrow>
      (let fs1 = create decodeDir fs;
           h = injectHookCode (hookEnv env) decodeDir (manifestBuffer env) packageName fs1;
           fs2 = snd h
       in case fst h of
            Inl e \<Rightarrow> (Inl (hookErrorMessage e), fs2)
          | Inr hook \<Rightarrow>
      (case recompileRun env of
         Some e \<Rightarrow> (Inl e, fs2)
       | None \<Rightarrow>
      (let buildApk = joinPath tempDir ''dist.apk'';
           fs3 = create buildApk fs2;
           mergedApk = joinPath tempDir ''merged.apk'';
           mg = mergeFiles env apkPath mergedApk fs3;
           fs4 = snd mg
       in case fst mg of
            Some e \<Rightarrow> (Inl e, fs4)
          | None \<Rightarrow>
      (let alignedApk = joinPath tempDir ''aligned.apk''
       in case (if zipalignExists env
                then (case zipalignRun env of
                        Some e \<Rightarrow> Inl e
                      | None \<Rightarrow> Inr (create alignedApk fs4))
                else copyFileSync mergedApk alignedApk fs4) of
            Inl e \<Rightarrow> (Inl e, fs4)
          | Inr fs5 \<Rightarrow>
      (let sg = resignApk env alignedApk fs5;
           fs6 = snd sg
       in if \<not> success (fst sg) then (Inl (message (fst sg)), fs6)
          else
            let signedTemp = replaceFirst ''.apk'' ''_signed.apk'' alignedApk
            in if existsSync fs6 signedTemp
               then (case copyFileSync signedTemp outputApk fs6 of
                       Inl e \<Rightarrow> (Inl e, fs6)
                     | Inr fs7 \<Rightarrow> (Inr outputApk, fs7))
               else (Inl msgSignedMissing, fs6)))))))"

text \<open>
  \<^verbatim>\<open>injectAndResignApk\<close>: the result returned to the caller and the files that exist when
  it returns, after the \<^verbatim>\<open>finally\<close> has removed the working directory.
\<close>

definition injectAndResignApk :: "job_env \<Rightarrow> string \<Rightarrow> files \<Rightarrow> sign_result \<times> files" where
  "injectAndResignApk env apkPath fs =
     (let tempDir = tmpInject env;
          fs0 = create tempDir fs;
          outputApk = replaceFirst ''.apk'' ''_hooked_signed.apk'' apkPath;
          p = pipeline env apkPath tempDir outputApk fs0;
          result = (case fst p of
                      Inr path \<Rightarrow>
                        \<lparr>success = True, message = msgInjectSignOk, outputPath = Some path\<rparr>
                    | Inl e \<Rightarrow>
                        \<lparr>success = False, message = msgProcessFailed @ e, outputPath = None\<rparr>);
          fs1 = snd p
      in (result, if existsSync fs1 tempDir then rmRecursive tempDir fs1 else fs1))"

section \<open>Example inputs\<close>

definition dq :: string where
  "dq = [CHR 0x22]"

definition opening1 :: string where
  "opening1 = ''<manifest package='' @ dq @ ''com.x'' @ dq @ ''><application android:label='' @
              dq @ ''A'' @ dq @ ''>''"

definition children1 :: string where
  "children1 = ''<activity android:name='' @ dq @ ''.Main'' @ dq @
               ''/></application></manifest>''"

definition header1 :: string where
  "header1 = ''.method static constructor <clinit>()V'' @ nl @ ''    .locals 1''"

definition sigEnvLegacy :: sig_env where
  "sigEnvLegacy =
     \<lparr>apkSigReaderJar = False, apkSigReaderRun = Inl ''Unable to access jarfile'',
      unzipListing = Some (''  Length      Date    Time    Name'' @ nl @
                           ''     1234  2020-01-01 00:00   META-INF/CERT.RSA'' @ nl @
                           ''       10  2020-01-01 00:00   classes.dex'' @ nl),
      unzipEntry = (\<lambda>n. if n = ''META-INF/CERT.RSA'' then Some [CHR 0x30, CHR 0x82, CHR 0x0A]
                         else None)\<rparr>"

definition sigEnvOdd :: sig_env where
  "sigEnvOdd = sigEnvLegacy\<lparr>apkSigReaderJar := True, apkSigReaderRun := Inr (''ABC'' @ nl)\<rparr>"

definition sigEnvGood :: sig_env where
  "sigEnvGood = sigEnvLegacy\<lparr>apkSigReaderJar := True, apkSigReaderRun := Inr (''3082AB'' @ nl)\<rparr>"

definition manifestApp :: string where
  "manifestApp =
     ''<manifest package='' @ dq @ ''com.x'' @ dq @ ''><application android:name='' @ dq @
     ''.App'' @ dq @ ''><activity android:name='' @ dq @ ''.Main'' @ dq @
     ''><intent-filter><action android:name='' @ dq @ ''android.intent.action.MAIN'' @ dq @
     ''/><category android:name='' @ dq @ ''android.intent.category.LAUNCHER'' @ dq @
     ''/></intent-filter></activity></application></manifest>''"

definition manifestNoApp :: string where
  "manifestNoApp =
     ''<manifest package='' @ dq @ ''com.x'' @ dq @ ''><application android:label='' @ dq @
     ''A'' @ dq @ ''><activity android:name='' @ dq @ ''.Main'' @ dq @
     ''><intent-filter><action android:name='' @ dq @ ''android.intent.action.MAIN'' @ dq @
     ''/><category android:name='' @ dq @ ''android.intent.category.LAUNCHER'' @ dq @
     ''/></intent-filter></activity></application></manifest>''"

definition manifestThemeName :: string where
  "manifestThemeName =
     ''<manifest package='' @ dq @ ''com.x'' @ dq @ ''><application android:name='' @ dq @
     ''android.app.Application'' @ dq @ ''><activity android:name='' @ dq @ ''.Main'' @ dq @
     ''/></application></manifest>''"

definition hookEnv1 :: hook_env where
  "hookEnv1 =
     \<lparr>axmlPrinter = None, manifestEditor = Some EditorOutput, manifestWriteFails = False,
      staticInjectFails = False, dirListing = [''smali'', ''res''],
      smaliFileExists = (\<lambda>d p. d = ''smali'' \<and> p = ''com/x/Main.smali''),
      tmpManifestEdit = ''/tmp/manifest-edit-a1''\<rparr>"

definition jobEnv1 :: job_env where
  "jobEnv1 =
     \<lparr>sigEnv = sigEnvGood, aaptPackageName = ''com.x'', decompileRun = None,
      manifestBuffer = manifestNoApp, hookEnv = hookEnv1, recompileRun = None,
      mergeRun = None, zipalignExists = True, zipalignRun = None,
      apksignerBatExists = True, apksignerJarExists = False, signRun = None,
      signWritesOutput = True, verifyRun = None,
      tmpInject = ''/tmp/apk-inject-b2'', tmpDexMerge = ''/tmp/dex-merge-c3''\<rparr>"

definition jobEnvBadKeystore :: job_env where
  "jobEnvBadKeystore =
     jobEnv1\<lparr>signRun := Some ''Failed to load signer'', signWritesOutput := False\<rparr>"

definition manifestUsesLibrary :: string where
  "manifestUsesLibrary =
     ''<manifest package='' @ dq @ ''com.x'' @ dq @ ''><application android:label='' @ dq @
     ''A'' @ dq @ ''><uses-library android:name='' @ dq @ ''org.apache.http.legacy'' @ dq @
     '' android:required='' @ dq @ ''false'' @ dq @ ''/><activity android:name='' @ dq @
     ''.Main'' @ dq @ ''/></application></manifest>''"





section \<open>Facts about searching\<close>

lemma search_Some_iff:
  "search f s = Some (i, v) \<longleftrightarrow>
     i \<le> length s \<and> f (drop i s) = Some v \<and> (\<forall>j<i. f (drop j s) = None)"
proof (induction s arbitrary: i)
  case Nil
  then show ?case by auto
next
  case (Cons c cs)
  show ?case
  proof (cases "f (c # cs)")
    case (Some w)
    then show ?thesis by (cases i) auto
  next
    case None
    show ?thesis
    proof (cases i)
      case 0
      with None show ?thesis by auto
    next
      case (Suc k)
      have "(\<forall>j<Suc k. f (drop j (c # cs)) = None) \<longleftrightarrow> (\<forall>j<k. f (drop j cs) = None)"
        using None by (auto simp: less_Suc_eq_0_disj)
      with None Suc Cons.IH [of k] show ?thesis by auto
    qed
  qed
qed

lemma search_None_iff:
  "search f s = None \<longleftrightarrow> (\<forall>j\<le>length s. f (drop j s) = None)"
proof (induction s)
  case Nil
  then show ?case by auto
next
  case (Cons c cs)
  have "(\<forall>j\<le>Suc (length cs). f (drop j (c # cs)) = None) \<longleftrightarrow>
        f (c # cs) = None \<and> (\<forall>j\<le>length cs. f (drop j cs) = None)"
  proof (intro iffI conjI allI impI)
    fix j assume h: "\<forall>j\<le>Suc (length cs). f (drop j (c # cs)) = None" and "j \<le> length cs"
    then have "f (drop (Suc j) (c # cs)) = None" by (metis Suc_le_mono)
    then show "f (drop j cs) = None" by simp
  next
    assume "\<forall>j\<le>Suc (length cs). f (drop j (c # cs)) = None"
    then have "f (drop 0 (c # cs)) = None" by blast
    then show "f (c # cs) = None" by simp
  next
    fix j assume "f (c # cs) = None \<and> (\<forall>j\<le>length cs. f (drop j cs) = None)" and "j \<le> Suc (length cs)"
    then show "f (drop j (c # cs)) = None" by (cases j) auto
  qed
  with Cons show ?case by (auto split: option.splits)
qed

lemma ci_prefix_append_straddle:
  "ci_prefix t (xs @ ys) \<Longrightarrow> \<not> ci_prefix t xs \<Longrightarrow> xs \<noteq> [] \<Longrightarrow>
     ys \<noteq> [] \<and> lower_ascii (hd ys) \<in> set (tl t)"
proof (induction t xs rule: ci_prefix.induct)
  case (1 s)
  then show ?case by simp
next
  case (2 p ps)
  then show ?case by simp
next
  case (3 p ps c cs)
  show ?case
  proof (cases cs)
    case Nil
    with 3 show ?thesis by (cases ps; cases ys) auto
  next
    case (Cons d ds)
    with 3 have "ys \<noteq> [] \<and> lower_ascii (hd ys) \<in> set (tl ps)" by auto
    then show ?thesis by (cases ps) auto
  qed
qed

lemma ci_prefix_append_left: "ci_prefix t xs \<Longrightarrow> ci_prefix t (xs @ ys)"
  by (induction t xs rule: ci_prefix.induct) auto

lemma stopTags_no_lt: "t \<in> set stopTags \<Longrightarrow> CHR ''<'' \<notin> set (tl t)"
  by (auto simp: stopTags_def)

lemma stopTags_hd: "t \<in> set stopTags \<Longrightarrow> ci_prefix t s \<Longrightarrow> s \<noteq> [] \<and> lower_ascii (hd s) = CHR ''<''"
  by (cases s) (auto simp: stopTags_def)

lemma stopPattern_Some_iff: "stopPattern s = Some u \<longleftrightarrow> (\<exists>t\<in>set stopTags. ci_prefix t s)"
  by (simp add: stopPattern_def list_ex_iff)

lemma stopPattern_None_iff: "stopPattern s = None \<longleftrightarrow> (\<forall>t\<in>set stopTags. \<not> ci_prefix t s)"
  by (simp add: stopPattern_def list_ex_iff)

lemma stopPattern_straddle:
  assumes "stopPattern xs = None" "xs \<noteq> []" "stopPattern ys = Some u"
  shows "stopPattern (xs @ ys) = None"
proof (rule ccontr)
  assume "stopPattern (xs @ ys) \<noteq> None"
  then obtain t where t: "t \<in> set stopTags" "ci_prefix t (xs @ ys)"
    by (auto simp: stopPattern_None_iff)
  from assms(1) t(1) have "\<not> ci_prefix t xs" by (simp add: stopPattern_None_iff)
  with t(2) assms(2) have "lower_ascii (hd ys) \<in> set (tl t)"
    using ci_prefix_append_straddle by blast
  moreover from assms(3) have "lower_ascii (hd ys) = CHR ''<''"
    using stopTags_hd by (auto simp: stopPattern_Some_iff)
  ultimately show False using stopTags_no_lt [OF t(1)] by simp
qed

lemma search_stop_append:
  assumes "search stopPattern area = None" "stopPattern children = Some u"
  shows "search stopPattern (area @ children) = Some (length area, ())"
proof -
  have "stopPattern (drop j (area @ children)) = None" if "j < length area" for j
  proof -
    from that assms(1) have "stopPattern (drop j area) = None"
      by (simp add: search_None_iff)
    moreover from that have "drop j area \<noteq> []" by simp
    ultimately have "stopPattern (drop j area @ children) = None"
      using assms(2) stopPattern_straddle by blast
    with that show ?thesis by simp
  qed
  with assms(2) show ?thesis by (simp add: search_Some_iff)
qed

lemma prefix_append_long: "length p \<le> length xs \<Longrightarrow> prefix p (xs @ ys) \<longleftrightarrow> prefix p xs"
  by (metis prefix_append prefix_length_prefix prefix_order.dual_order.refl prefix_order.order_trans prefixI)

lemma indexOf_append:
  assumes "indexOf xs p = Some a"
  shows "indexOf (xs @ ys) p = Some a"
proof -
  from assms obtain u where s: "search (lit p) xs = Some (a, u)"
    by (auto simp: indexOf_def)
  then have a: "a \<le> length xs" "prefix p (drop a xs)" "\<forall>j<a. \<not> prefix p (drop j xs)"
    by (auto simp: search_Some_iff lit_def split: if_splits)
  from a(2) have len: "length p \<le> length xs - a" using prefix_length_le by fastforce
  have "\<not> prefix p (drop j (xs @ ys))" if "j < a" for j
  proof -
    from that len have "length p \<le> length (drop j xs)" by simp
    then have "prefix p (drop j xs @ ys) \<longleftrightarrow> prefix p (drop j xs)" by (rule prefix_append_long)
    with a(3) that a(1) show ?thesis by simp
  qed
  moreover from a(1,2) have "prefix p (drop a (xs @ ys))" by simp
  ultimately have "search (lit p) (xs @ ys) = Some (a, ())"
    using a(1) by (simp add: search_Some_iff lit_def)
  then show ?thesis by (simp add: indexOf_def)
qed


section \<open>The region the Application class is read from\<close>

text \<open>
  What the scan guarantees. Let \<open>opening\<close> be manifest text that contains \<^verbatim>\<open><application\<close>
  and, from there on, none of the boundaries \<^verbatim>\<open><activity\<close>, \<^verbatim>\<open><service\<close>, \<^verbatim>\<open><provider\<close>,
  \<^verbatim>\<open><receiver\<close>, \<^verbatim>\<open><meta-data\<close>, \<^verbatim>\<open></application\<close>, and let \<open>children\<close> be any text that
  starts with one of these boundaries. Then the region \<^verbatim>\<open>extractApplicationName\<close> scans in
  \<open>opening @ children\<close> ends where \<open>children\<close> starts, and the name it returns is the
  one it returns for \<open>opening\<close> alone: what follows the first listed boundary is never
  looked at.
\<close>

lemma scan_ends_at_first_boundary:
  assumes "indexOf opening ''<application'' = Some a"
      and "search stopPattern (drop a opening) = None"
      and "stopPattern children = Some ()"
  shows "scanningArea (opening @ children) = Some (drop a opening) \<and>
         extractApplicationName (opening @ children) = extractApplicationName opening"
proof -
  from assms(1) have le: "a \<le> length opening"
    by (auto simp: indexOf_def search_Some_iff)
  have idx: "indexOf (opening @ children) ''<application'' = Some a"
    using assms(1) by (rule indexOf_append)
  have stop: "search stopPattern (drop a opening @ children) = Some (length (drop a opening), ())"
    using assms(2,3) by (rule search_stop_append)
  have area1: "scanningArea (opening @ children) = Some (drop a opening)"
    using idx stop le by (simp add: scanningArea_def)
  have area2: "scanningArea opening = Some (drop a opening)"
    using assms(1,2) by (simp add: scanningArea_def)
  show ?thesis using area1 area2 by (simp add: extractApplicationName_def)
qed


lemma opening1_index: "indexOf opening1 ''<application'' = Some 26"
  by code_simp

lemma opening1_no_stop: "search stopPattern (drop 26 opening1) = None"
  by code_simp

lemma children1_stop: "stopPattern children1 = Some ()"
  by code_simp

lemma opening1_name: "extractApplicationName opening1 = None"
  by code_simp

lemma scan_ends_at_first_boundary_example:
  "indexOf opening1 ''<application'' = Some 26 \<and>
   search stopPattern (drop 26 opening1) = None \<and>
   stopPattern children1 = Some () \<and>
   scanningArea (opening1 @ children1) = Some (drop 26 opening1) \<and>
   extractApplicationName (opening1 @ children1) = None"
  using scan_ends_at_first_boundary [OF opening1_index opening1_no_stop children1_stop]
    opening1_index opening1_no_stop children1_stop opening1_name
  by simp

text \<open>
  Claim C9. The claim is that the Application class is read from the attributes of the
  opening \<^verbatim>\<open><application\<close> tag only, and never from a child. The stop pattern lists five
  child elements and the closing tag; a child element that is not in the list, such as
  \<^verbatim>\<open><uses-library\<close>, does not end the scan. For an \<^verbatim>\<open><application\<close> tag that has no
  \<^verbatim>\<open>android:name\<close> and whose first child is
  \<^verbatim>\<open><uses-library android:name="org.apache.http.legacy"/>\<close>, the function returns the name of
  the library as the Application class, and the injection then fails to locate a class
  file of that name.
\<close>

theorem application_name_from_unlisted_child:
  "extractApplicationName manifestUsesLibrary = Some ''org.apache.http.legacy''"
  by code_simp

lemma unlisted_child_fails_injection:
  "fst (planInjection hookEnv1 ''/tmp/apk-inject-b2/decoded'' manifestUsesLibrary False ''com.x'' [])
     = Inl (ApplicationClassFileNotFound ''org.apache.http.legacy'')"
  by code_simp

section \<open>The partition chosen for the helper classes\<close>

lemma digit_char_is_digit: "d < 10 \<Longrightarrow> is_digit (digit_char d)"
  by (simp add: is_digit_def digit_char_def)

lemma digit_val_digit_char: "d < 10 \<Longrightarrow> digit_val (digit_char d) = d"
  by (simp add: digit_val_def digit_char_def)

lemma show_nat_digits: "list_all is_digit (show_nat n)"
proof (induction n rule: show_nat.induct)
  case (1 n)
  show ?case
  proof (cases "n < 10")
    case True
    then show ?thesis by (subst show_nat.simps) (simp add: digit_char_is_digit)
  next
    case False
    with 1 show ?thesis by (subst show_nat.simps) (simp add: digit_char_is_digit)
  qed
qed

lemma show_nat_nonempty: "show_nat n \<noteq> []"
  by (subst show_nat.simps) simp

lemma parseInt_snoc: "parseInt (ds @ [c]) = 10 * parseInt ds + digit_val c"
  by (simp add: parseInt_def)

lemma parseInt_show_nat: "parseInt (show_nat n) = n"
proof (induction n rule: show_nat.induct)
  case (1 n)
  show ?case
  proof (cases "n < 10")
    case True
    then show ?thesis by (subst show_nat.simps) (simp add: parseInt_def digit_val_digit_char)
  next
    case False
    with 1 have "parseInt (show_nat (n div 10)) = n div 10" by simp
    with False show ?thesis
      by (subst show_nat.simps) (simp add: parseInt_snoc digit_val_digit_char)
  qed
qed

lemma takeWhile_all: "list_all P xs \<Longrightarrow> takeWhile P xs = xs"
  by (induction xs) auto

lemma search_smaliClasses:
  "search smaliClassesPattern (''smali_classes'' @ show_nat n) = Some (0, n)"
proof -
  have "smaliClassesPattern (''smali_classes'' @ show_nat n) = Some n"
    by (simp add: smaliClassesPattern_def takeWhile_all show_nat_digits show_nat_nonempty
        parseInt_show_nat)
  then show ?thesis by simp
qed

lemma indexStep_smaliClasses:
  "indexStep m (''smali_classes'' @ show_nat n) = max m n"
  by (simp only: indexStep_def search_smaliClasses) (simp add: max_def)

lemma scanMaxIndex_fold:
  "foldl indexStep m0 (map (\<lambda>n. ''smali_classes'' @ show_nat n) ns) = Max (set (m0 # ns))"
proof (induction ns arbitrary: m0)
  case Nil
  then show ?case by simp
next
  case (Cons n ns)
  have "Max (insert (max m0 n) (set ns)) = Max (insert m0 (insert n (set ns)))"
    by (metis List.finite_set Max_insert Max_singleton finite_insert max.assoc insert_not_empty)
  moreover have "foldl indexStep m0 (map (\<lambda>n. ''smali_classes'' @ show_nat n) (n # ns))
      = foldl indexStep (max m0 n) (map (\<lambda>n. ''smali_classes'' @ show_nat n) ns)"
    by (simp only: list.map foldl.simps indexStep_smaliClasses)
  ultimately show ?case using Cons [of "max m0 n"] by simp
qed

lemma show_nat_2: "show_nat (Suc (Suc 0)) = ''2''"
  by code_simp


text \<open>
  Claim C4. When the decompiled tree holds the unlabeled partition \<^verbatim>\<open>smali\<close> and the numbered
  partitions \<^verbatim>\<open>smali_classesN\<close> for the numbers \<open>N\<close> in \<open>ns\<close> (in any order, among any other
  entries), the helper classes go to the partition numbered one more than the highest of
  them, and to the second partition when there is no numbered one. For the partitions
  default, 2 and 5 that is partition 6. The numbers are kept below \<open>2 ^ 53\<close>, where the
  numbers of JavaScript are the natural numbers.
\<close>

theorem next_partition_above_highest:
  "(filter (\<lambda>d. startsWith d ''smali_classes'') listing =
        map (\<lambda>n. ''smali_classes'' @ show_nat n) ns \<and> ''smali'' \<in> set listing \<and>
        (\<forall>n\<in>set ns. n < 2 ^ 53)
      \<longrightarrow> nextSmaliDir listing = ''smali_classes'' @ show_nat (Max (set (1 # ns)) + 1)) \<and>
   nextSmaliDir [''smali''] = ''smali_classes2'' \<and>
   nextSmaliDir [''smali'', ''smali_classes2'', ''smali_classes5''] = ''smali_classes6''"
proof (intro conjI impI)
  assume a: "filter (\<lambda>d. startsWith d ''smali_classes'') listing =
        map (\<lambda>n. ''smali_classes'' @ show_nat n) ns \<and> ''smali'' \<in> set listing \<and>
        (\<forall>n\<in>set ns. n < 2 ^ 53)"
  show "nextSmaliDir listing = ''smali_classes'' @ show_nat (Max (set (1 # ns)) + 1)"
  proof (cases ns)
    case Nil
    with a show_nat_2 show ?thesis by (simp add: nextSmaliDir_def)
  next
    case (Cons n ns')
    have "scanMaxIndex (filter (\<lambda>d. startsWith d ''smali_classes'') listing) = Max (set (1 # ns))"
      unfolding scanMaxIndex_def conjunct1 [OF a] by (rule scanMaxIndex_fold)
    moreover have "filter (\<lambda>d. startsWith d ''smali_classes'') listing \<noteq> []"
      unfolding conjunct1 [OF a] using Cons by simp
    ultimately show ?thesis
      unfolding nextSmaliDir_def Let_def by (simp only: if_False)
  qed
next
  show "nextSmaliDir [''smali''] = ''smali_classes2''" by code_simp
next
  show "nextSmaliDir [''smali'', ''smali_classes2'', ''smali_classes5''] = ''smali_classes6''"
    by code_simp
qed

lemma listing1_filter:
  "filter (\<lambda>d. startsWith d ''smali_classes'')
     [''res'', ''smali_classes5'', ''smali'', ''smali_classes2'', ''AndroidManifest.xml''] =
   map (\<lambda>n. ''smali_classes'' @ show_nat n) [5, 2]"
  by code_simp

lemma listing1_max: "''smali_classes'' @ show_nat (Max (set [1, 5, 2]) + 1) = ''smali_classes6''"
  by code_simp

theorem next_partition_above_highest_witness:
  "filter (\<lambda>d. startsWith d ''smali_classes'')
     [''res'', ''smali_classes5'', ''smali'', ''smali_classes2'', ''AndroidManifest.xml''] =
   map (\<lambda>n. ''smali_classes'' @ show_nat n) [5, 2] \<and>
   (5::nat) < 2 ^ 53 \<and> (2::nat) < 2 ^ 53 \<and>
   nextSmaliDir [''res'', ''smali_classes5'', ''smali'', ''smali_classes2'', ''AndroidManifest.xml'']
     = ''smali_classes6''"
  using next_partition_above_highest
          [of "[''res'', ''smali_classes5'', ''smali'', ''smali_classes2'', ''AndroidManifest.xml'']"
              "[5, 2]"]
        listing1_filter listing1_max
  by simp

section \<open>The register count after injection\<close>

lemma takeWhile_barrier: "\<not> P y \<Longrightarrow> takeWhile P (xs @ y # ys) = takeWhile P xs"
  by (induction xs) auto

lemma dropWhile_barrier: "\<not> P y \<Longrightarrow> dropWhile P (xs @ y # ys) = dropWhile P xs @ y # ys"
  by (induction xs) auto

lemma prefix_straddle_nth:
  assumes "prefix p (u @ c # z)" "length u < length p"
  shows "p ! length u = c"
proof -
  from assms(1) obtain r where r: "u @ c # z = p @ r" by (auto simp: prefix_def)
  have "(u @ c # z) ! length u = c" by simp
  with r have "(p @ r) ! length u = c" by simp
  with assms(2) show ?thesis by (simp add: nth_append)
qed


lemma locals_tail_no_dot: "0 < k \<Longrightarrow> k < 7 \<Longrightarrow> ''.locals'' ! k \<noteq> CHR ''.''"
proof -
  assume "0 < k" "k < 7"
  then have "k = 1 \<or> k = 2 \<or> k = 3 \<or> k = 4 \<or> k = 5 \<or> k = 6" by arith
  then show ?thesis by auto
qed

lemma prefix_locals_barrier:
  assumes "u \<noteq> []"
  shows "prefix ''.locals'' (u @ CHR ''.'' # z) \<longleftrightarrow> prefix ''.locals'' u"
proof (cases "7 \<le> length u")
  case True
  then show ?thesis using prefix_append_long [of "''.locals''" u] by simp
next
  case False
  then have short: "length u < 7" by simp
  have "\<not> prefix ''.locals'' (u @ CHR ''.'' # z)"
  proof
    assume "prefix ''.locals'' (u @ CHR ''.'' # z)"
    then have "''.locals'' ! length u = CHR ''.''"
      using short by (intro prefix_straddle_nth) simp_all
    moreover from assms have "0 < length u" by simp
    ultimately show False using locals_tail_no_dot short by blast
  qed
  moreover have "\<not> prefix ''.locals'' u"
    using short prefix_length_le by fastforce
  ultimately show ?thesis by simp
qed

lemma dot_not_space: "\<not> is_space CHR ''.''"
  by (simp add: is_space_def)

lemma dot_not_digit: "\<not> is_digit CHR ''.''"
  by (simp add: is_digit_def)

lemma localsPattern_barrier:
  assumes "u \<noteq> []"
  shows "localsPattern (u @ CHR ''.'' # z) = localsPattern u"
proof (cases "prefix ''.locals'' u")
  case False
  moreover from False have "\<not> prefix ''.locals'' (u @ CHR ''.'' # z)"
    using prefix_locals_barrier [OF assms, of z] by blast
  ultimately show ?thesis by (simp only: localsPattern_def if_True simp_thms)
next
  case True
  then have len: "7 \<le> length u" using prefix_length_le by fastforce
  then have d: "drop 7 (u @ CHR ''.'' # z) = drop 7 u @ CHR ''.'' # z" by simp
  have p: "prefix ''.locals'' (u @ CHR ''.'' # z)"
    using True prefix_locals_barrier [OF assms, of z] by blast
  show ?thesis
    unfolding localsPattern_def Let_def d
    by (simp only: p True takeWhile_barrier [of is_space, OF dot_not_space]
        dropWhile_barrier [of is_space, OF dot_not_space]
        takeWhile_barrier [of is_digit, OF dot_not_digit])
qed

lemma digit_not_space: "is_digit c \<Longrightarrow> \<not> is_space c"
  by (auto simp: is_digit_def is_space_def)

lemma localsPattern_Some_D:
  assumes "localsPattern s = Some (n, ds)"
  shows "s \<noteq> [] \<and> hd s = CHR ''.'' \<and> n \<le> length s \<and>
         (drop n s = [] \<or> \<not> is_digit (hd (drop n s)))"
proof -
  from assms have p: "prefix ''.locals'' s"
    by (simp add: localsPattern_def split: if_splits)
  define r where "r = drop 7 s"
  define ws where "ws = takeWhile is_space r"
  define r1 where "r1 = dropWhile is_space r"
  from assms p have n: "n = 7 + length ws + length (takeWhile is_digit r1)"
    by (auto simp: localsPattern_def Let_def r_def ws_def r1_def split: if_splits)
  from p have len: "7 \<le> length s" using prefix_length_le by fastforce
  have r1: "r1 = drop (length ws) r" by (simp add: r1_def ws_def dropWhile_eq_drop)
  have "drop n s = drop (length (takeWhile is_digit r1)) (drop (length ws) (drop 7 s))"
    by (simp add: n add.commute add.left_commute)
  also have "\<dots> = dropWhile is_digit r1"
    by (simp add: r1 r_def dropWhile_eq_drop)
  finally have dn: "drop n s = dropWhile is_digit r1" .
  have "length ws \<le> length r" by (simp add: ws_def length_takeWhile_le)
  moreover have "length (takeWhile is_digit r1) \<le> length r1" by (simp add: length_takeWhile_le)
  ultimately have "n \<le> length s" using len by (simp add: n r1 r_def)
  moreover from p have "s \<noteq> [] \<and> hd s = CHR ''.''" by (cases s) auto
  moreover have "drop n s = [] \<or> \<not> is_digit (hd (drop n s))"
    unfolding dn using hd_dropWhile [of is_digit r1] by blast
  ultimately show ?thesis by simp
qed

lemma localsPattern_fresh:
  assumes "rest = [] \<or> \<not> is_digit (hd rest)"
  shows "localsPattern (''.locals '' @ show_nat k @ rest) =
           Some (8 + length (show_nat k), show_nat k)"
proof -
  obtain d ds where sn: "show_nat k = d # ds" using show_nat_nonempty by (cases "show_nat k") auto
  have dig: "list_all is_digit (d # ds)" using show_nat_digits [of k] sn by simp
  then have "\<not> is_space d" using digit_not_space by simp
  moreover have "takeWhile is_digit (d # ds @ rest) = d # ds"
  proof (cases rest)
    case Nil
    with dig show ?thesis using takeWhile_all [of is_digit "d # ds"] by simp
  next
    case (Cons x xs)
    with assms have "\<not> is_digit x" by simp
    with Cons dig show ?thesis
      using takeWhile_barrier [of is_digit x "d # ds" xs] takeWhile_all [of is_digit "d # ds"]
      by simp
  qed
  ultimately show ?thesis
    by (simp add: localsPattern_def sn is_space_def)
qed

lemma raiseLocals_search:
  assumes s: "search localsPattern header = Some (i, n, ds)"
  shows "search localsPattern (take i header @ ''.locals '' @ show_nat k @ drop (i + n) header)
           = Some (i, 8 + length (show_nat k), show_nat k)"
proof -
  define new where "new = take i header @ ''.locals '' @ show_nat k @ drop (i + n) header"
  from s have i: "i \<le> length header" and at: "localsPattern (drop i header) = Some (n, ds)"
    and before: "\<forall>j<i. localsPattern (drop j header) = None"
    by (simp_all add: search_Some_iff)
  from localsPattern_Some_D [OF at]
  have ne: "drop i header \<noteq> []" and hd: "hd (drop i header) = CHR ''.''"
    and rest: "drop n (drop i header) = [] \<or> \<not> is_digit (hd (drop n (drop i header)))"
    by simp_all
  from ne hd obtain z where z: "drop i header = CHR ''.'' # z" by (cases "drop i header") auto
  have rest': "drop (i + n) header = [] \<or> \<not> is_digit (hd (drop (i + n) header))"
    using rest by (simp add: add.commute)
  have len: "length (take i header) = i" using i by simp
  have "drop i new = ''.locals '' @ show_nat k @ drop (i + n) header"
    unfolding new_def using len by simp
  then have here: "localsPattern (drop i new) = Some (8 + length (show_nat k), show_nat k)"
    using localsPattern_fresh [OF rest'] by simp
  have "localsPattern (drop j new) = None" if j: "j < i" for j
  proof -
    define u where "u = drop j (take i header)"
    have une: "u \<noteq> []" using j i by (simp add: u_def)
    have "drop j header = drop j (take i header @ drop i header)" by simp
    also have "\<dots> = u @ CHR ''.'' # z" using j len z by (simp add: u_def del: append_take_drop_id)
    finally have old: "localsPattern (drop j header) = localsPattern u"
      using localsPattern_barrier [OF une] by simp
    obtain z' where "drop j new = u @ CHR ''.'' # z'"
      unfolding new_def u_def using j len by simp
    then have "localsPattern (drop j new) = localsPattern u"
      using localsPattern_barrier [OF une] by simp
    with old before j show ?thesis by simp
  qed
  moreover have "i \<le> length new" unfolding new_def using len by simp
  ultimately have "search localsPattern new = Some (i, 8 + length (show_nat k), show_nat k)"
    using here by (simp add: search_Some_iff)
  then show ?thesis by (simp only: new_def)
qed

lemma raiseLocals_declared:
  assumes "declaredLocals header = Some c"
  shows "declaredLocals (raiseLocals m header) = Some (max c (minLocals m))"
proof -
  from assms obtain i n ds where s: "search localsPattern header = Some (i, n, ds)"
    and c: "c = parseInt ds"
    by (auto simp: declaredLocals_def)
  show ?thesis
  proof (cases "c < minLocals m")
    case True
    have "raiseLocals m header =
            take i header @ ''.locals '' @ show_nat (minLocals m) @ drop (i + n) header"
      using s c True by (simp add: raiseLocals_def)
    then have "search localsPattern (raiseLocals m header) =
                 Some (i, 8 + length (show_nat (minLocals m)), show_nat (minLocals m))"
      using raiseLocals_search [OF s] by simp
    then show ?thesis using True by (simp add: declaredLocals_def parseInt_show_nat max_def)
  next
    case False
    then have "raiseLocals m header = header" using s c by (simp add: raiseLocals_def)
    with assms False show ?thesis by (simp add: max_def)
  qed
qed

lemma raiseLocals_unchanged:
  assumes "declaredLocals header = Some c" "minLocals m \<le> c"
  shows "raiseLocals m header = header"
  using assms by (auto simp: declaredLocals_def raiseLocals_def)

lemma newMethod_locals: "declaredLocals (newMethod m superClass hookCall) = Some (minLocals m)"
  by (cases m)
     (simp_all add: declaredLocals_def newMethod_def nl_def minLocals_def localsPattern_def
        is_space_def is_digit_def parseInt_def digit_val_def)

lemma localsPattern_extend:
  assumes "localsPattern s = Some (n, ds)" "\<not> is_digit y"
  shows "localsPattern (s @ y # z) = Some (n, ds)"
proof -
  from assms(1) have p: "prefix ''.locals'' s"
    by (simp add: localsPattern_def split: if_splits)
  then have len: "7 \<le> length s" using prefix_length_le by fastforce
  define r where "r = drop 7 s"
  define r1 where "r1 = dropWhile is_space r"
  from assms(1) p have ws: "takeWhile is_space r \<noteq> []" and dg: "takeWhile is_digit r1 \<noteq> []"
    and res: "n = 7 + length (takeWhile is_space r) + length (takeWhile is_digit r1)"
             "ds = takeWhile is_digit r1"
    by (auto simp: localsPattern_def Let_def r_def r1_def split: if_splits)
  from dg obtain x xs where r1c: "r1 = x # xs" and xd: "is_digit x"
    by (cases r1) (auto split: if_splits)
  have xin: "x \<in> set r" using r1c set_dropWhileD [of x is_space r] by (simp add: r1_def)
  have xs: "\<not> is_space x" using xd digit_not_space by simp
  have t1: "takeWhile is_space (r @ y # z) = takeWhile is_space r"
    using xin xs by (simp add: takeWhile_append1)
  have t2: "dropWhile is_space (r @ y # z) = r1 @ y # z"
    using xin xs by (simp add: dropWhile_append1 r1_def)
  have t3: "takeWhile is_digit (r1 @ y # z) = takeWhile is_digit r1"
    using assms(2) by (rule takeWhile_barrier)
  have d7: "drop 7 (s @ y # z) = r @ y # z" using len by (simp add: r_def)
  have p': "prefix ''.locals'' (s @ y # z)" using p by (rule prefix_prefix)
  show ?thesis
    unfolding localsPattern_def Let_def d7 t1 t2 t3
    using p' ws dg res by simp
qed

lemma search_locals_extend:
  assumes s: "search localsPattern h = Some (i, n, ds)" and y: "\<not> is_digit y"
  shows "search localsPattern (h @ y # z) = Some (i, n, ds)"
proof -
  from s have i: "i \<le> length h" and at: "localsPattern (drop i h) = Some (n, ds)"
    and before: "\<forall>j<i. localsPattern (drop j h) = None"
    by (simp_all add: search_Some_iff)
  from localsPattern_Some_D [OF at] obtain w where w: "drop i h = CHR ''.'' # w"
    by (cases "drop i h") auto
  have here: "localsPattern (drop i (h @ y # z)) = Some (n, ds)"
    using localsPattern_extend [OF at y] i by simp
  have "localsPattern (drop j (h @ y # z)) = None" if j: "j < i" for j
  proof -
    define u where "u = drop j (take i h)"
    have une: "u \<noteq> []" using j i by (simp add: u_def)
    have "drop j h = drop j (take i h @ drop i h)" by simp
    also have "\<dots> = u @ CHR ''.'' # w" using j i w by (simp add: u_def del: append_take_drop_id)
    finally have dj: "drop j h = u @ CHR ''.'' # w" .
    then have old: "localsPattern (drop j h) = localsPattern u"
      using localsPattern_barrier [OF une] by simp
    have "drop j (h @ y # z) = drop j h @ y # z" using j i by simp
    also have "\<dots> = u @ CHR ''.'' # (w @ y # z)" by (simp add: dj)
    finally have "localsPattern (drop j (h @ y # z)) = localsPattern u"
      using localsPattern_barrier [OF une] by simp
    with old before j show ?thesis by simp
  qed
  with here i show ?thesis by (simp add: search_Some_iff)
qed

lemma nl_not_digit: "\<not> is_digit (CHR 0x0A)"
  by (simp add: is_digit_def)

lemma injectedText_declared:
  assumes "declaredLocals header = Some c"
  shows "declaredLocals (injectedText m header hookCall @ rest) = Some (max c (minLocals m))"
proof -
  from raiseLocals_declared [OF assms, of m]
  obtain i n ds where s: "search localsPattern (raiseLocals m header) = Some (i, n, ds)"
    and v: "parseInt ds = max c (minLocals m)"
    by (auto simp: declaredLocals_def)
  have "injectedText m header hookCall @ rest =
          raiseLocals m header @ CHR 0x0A # (hookCall @ rest)"
    by (simp add: injectedText_def nl_def)
  then have "search localsPattern (injectedText m header hookCall @ rest) = Some (i, n, ds)"
    using search_locals_extend [OF s nl_not_digit] by simp
  with v show ?thesis by (simp add: declaredLocals_def)
qed

text \<open>
  Claim C3. The minimum is 6 for the static initializer, 3 for the content provider variant
  and 2 for the direct calls. A method the injection creates declares exactly its minimum.
  A method it patches, whose header declared \<open>c\<close> registers, declares the larger of \<open>c\<close>
  and the minimum once the block is injected, whatever text follows: at least the minimum,
  exactly the minimum when it declared less, and the header is left as it was when it
  declared the minimum or more.
\<close>

theorem locals_at_least_minimum:
  "minLocals StaticBlock = 6 \<and> minLocals ProviderOnCreate = 3 \<and>
   minLocals AttachBaseContext = 2 \<and> minLocals OnCreate = 2 \<and>
   declaredLocals (newMethod m superClass hookCall) = Some (minLocals m) \<and>
   (declaredLocals header = Some c \<longrightarrow>
      declaredLocals (injectedText m header hookCall @ rest) = Some (max c (minLocals m)) \<and>
      (minLocals m \<le> c \<longrightarrow> raiseLocals m header = header))"
  using newMethod_locals injectedText_declared raiseLocals_unchanged
  by (simp add: minLocals_def)

lemma header1_locals: "declaredLocals header1 = Some 1"
  by code_simp

theorem locals_at_least_minimum_witness:
  "declaredLocals header1 = Some 1 \<and>
   declaredLocals (injectedText StaticBlock header1 ''    const/4 v0, 0x0'' @ nl @ ''.end method'')
     = Some 6 \<and>
   declaredLocals (newMethod StaticBlock ''Landroid/app/Activity;'' []) = Some 6"
  using locals_at_least_minimum
          [where m = StaticBlock and superClass = "''Landroid/app/Activity;''" and hookCall = "[]"
             and header = header1 and c = 1 and rest = "nl @ ''.end method''"]
        locals_at_least_minimum
          [where m = StaticBlock and hookCall = "''    const/4 v0, 0x0''"
             and header = header1 and c = 1 and rest = "nl @ ''.end method''"]
        header1_locals
  by simp

section \<open>The signature that is extracted\<close>

lemma lower_hex: "is_hex c \<Longrightarrow> is_lower_hex (lower_ascii c)"
  by (auto simp: is_hex_def is_lower_hex_def is_digit_def lower_ascii_def)

lemma lower_hex_all: "list_all is_hex s \<Longrightarrow> list_all is_lower_hex (map lower_ascii s)"
  by (induction s) (auto simp: lower_hex)

lemma sentinel_lower_hex: "list_all is_lower_hex ''00''"
  by (simp add: is_lower_hex_def is_digit_def)

lemma getCertHex_cases:
  "fst (getCertHexUsingApkSig env) = ''00'' \<or>
   (\<exists>stdout. apkSigReaderJar env \<and> apkSigReaderRun env = Inr stdout \<and> trim stdout \<noteq> [] \<and>
       list_all is_hex (trim stdout) \<and>
       fst (getCertHexUsingApkSig env) = map lower_ascii (trim stdout))"
  by (auto simp: getCertHexUsingApkSig_def Let_def split: sum.splits)

text \<open>
  Claim C8, as the code has it. The output of the extraction is never empty and holds only
  the characters \<^verbatim>\<open>0-9a-f\<close>, the sentinel included. Its length is even when the reader
  printed an even number of hexadecimal digits: the code checks the characters of the
  reader's output, not their number.
\<close>

theorem signature_is_lowercase_hex:
  "fst (getOriginalSignature env) \<noteq> [] \<and>
   list_all is_lower_hex (fst (getOriginalSignature env)) \<and>
   ((\<forall>stdout. apkSigReaderRun env = Inr stdout \<longrightarrow> even (length (trim stdout))) \<longrightarrow>
      even (length (fst (getOriginalSignature env))))"
proof -
  have eq: "fst (getOriginalSignature env) = fst (getCertHexUsingApkSig env)"
    by (simp add: getOriginalSignature_def Let_def)
  from getCertHex_cases [of env] show ?thesis
  proof
    assume "fst (getCertHexUsingApkSig env) = ''00''"
    then show ?thesis using sentinel_lower_hex by (simp add: eq)
  next
    assume "\<exists>stdout. apkSigReaderJar env \<and> apkSigReaderRun env = Inr stdout \<and> trim stdout \<noteq> [] \<and>
       list_all is_hex (trim stdout) \<and>
       fst (getCertHexUsingApkSig env) = map lower_ascii (trim stdout)"
    then obtain stdout where "apkSigReaderRun env = Inr stdout" "trim stdout \<noteq> []"
      "list_all is_hex (trim stdout)"
      "fst (getCertHexUsingApkSig env) = map lower_ascii (trim stdout)" by blast
    then show ?thesis using lower_hex_all by (simp add: eq)
  qed
qed

lemma sigEnvGood_even: "\<forall>stdout. apkSigReaderRun sigEnvGood = Inr stdout \<longrightarrow> even (length (trim stdout))"
  by (simp add: sigEnvGood_def sigEnvLegacy_def trim_def nl_def is_space_def)

lemma sigEnvGood_value: "fst (getOriginalSignature sigEnvGood) = ''3082ab''"
  by code_simp

lemma sigEnvGood_run: "apkSigReaderRun sigEnvGood = Inr (''3082AB'' @ nl)"
  by (simp add: sigEnvGood_def)

theorem signature_is_lowercase_hex_witness:
  "apkSigReaderRun sigEnvGood = Inr (''3082AB'' @ nl) \<and>
   even (length (trim (''3082AB'' @ nl))) \<and>
   fst (getOriginalSignature sigEnvGood) = ''3082ab'' \<and>
   even (length (fst (getOriginalSignature sigEnvGood)))"
  using signature_is_lowercase_hex [of sigEnvGood] sigEnvGood_even sigEnvGood_value sigEnvGood_run
  by simp

text \<open>
  Claim C8 as stated fails when the reader prints an odd number of hexadecimal digits:
  for the output \<^verbatim>\<open>ABC\<close> the extraction returns \<^verbatim>\<open>abc\<close>.
\<close>

theorem signature_odd_length_counterexample:
  "fst (getOriginalSignature sigEnvOdd) = ''abc'' \<and>
   odd (length (fst (getOriginalSignature sigEnvOdd)))"
  by code_simp

text \<open>
  Claim C2 as stated fails: with the reader's jar missing and a legacy signature file
  \<^verbatim>\<open>META-INF/CERT.RSA\<close> that \<^verbatim>\<open>getCertRsaHex\<close> reads as \<^verbatim>\<open>30820a\<close>, the extraction
  returns the sentinel. \<^verbatim>\<open>getOriginalSignature\<close> never calls the legacy reader.
\<close>

theorem signature_no_legacy_fallback_counterexample:
  "fst (getOriginalSignature sigEnvLegacy) = ''00'' \<and> getCertRsaHex sigEnvLegacy = ''30820a''"
  by code_simp

lemma getCertHex_ignores_legacy:
  "getCertHexUsingApkSig (env\<lparr>unzipListing := l, unzipEntry := u\<rparr>) = getCertHexUsingApkSig env"
  by (simp add: getCertHexUsingApkSig_def)

lemma stage_sentinel:
  "fst (getCertHexUsingApkSig env) = ''00'' \<Longrightarrow>
   fst (extractSignatureStage env) = ''00'' \<and> warnNoSignature \<in> set (snd (extractSignatureStage env))"
  by (simp add: extractSignatureStage_def getOriginalSignature_def Let_def)

text \<open>
  Claim C2, as the code has it. The extraction consults the signing-block reader only:
  its result does not depend on what the container lists or holds. When the reader's jar
  is there, runs, and prints a non-empty string of hexadecimal digits, the result is that
  string in lower case. When the jar is missing, the command fails, or it prints anything
  else, the result is the sentinel \<^verbatim>\<open>00\<close> and the pipeline logs the warning and goes on.
\<close>

theorem signature_from_reader_only:
  "fst (getOriginalSignature (env\<lparr>unzipListing := l, unzipEntry := u\<rparr>)) =
     fst (getOriginalSignature env) \<and>
   (apkSigReaderJar env \<and> apkSigReaderRun env = Inr stdout \<and> trim stdout \<noteq> [] \<and>
    list_all is_hex (trim stdout) \<longrightarrow>
      fst (getOriginalSignature env) = map lower_ascii (trim stdout)) \<and>
   (\<not> apkSigReaderJar env \<or> apkSigReaderRun env = Inl e \<or>
    (apkSigReaderRun env = Inr stdout \<and> \<not> (trim stdout \<noteq> [] \<and> list_all is_hex (trim stdout))) \<longrightarrow>
      fst (extractSignatureStage env) = ''00'' \<and>
      warnNoSignature \<in> set (snd (extractSignatureStage env)))"
proof (intro conjI impI)
  show "fst (getOriginalSignature (env\<lparr>unzipListing := l, unzipEntry := u\<rparr>)) =
     fst (getOriginalSignature env)"
    by (simp add: getOriginalSignature_def getCertHex_ignores_legacy)
next
  assume "apkSigReaderJar env \<and> apkSigReaderRun env = Inr stdout \<and> trim stdout \<noteq> [] \<and>
    list_all is_hex (trim stdout)"
  then show "fst (getOriginalSignature env) = map lower_ascii (trim stdout)"
    by (simp add: getOriginalSignature_def getCertHexUsingApkSig_def Let_def)
next
  assume "\<not> apkSigReaderJar env \<or> apkSigReaderRun env = Inl e \<or>
    (apkSigReaderRun env = Inr stdout \<and> \<not> (trim stdout \<noteq> [] \<and> list_all is_hex (trim stdout)))"
  then have "fst (getCertHexUsingApkSig env) = ''00''"
    by (auto simp: getCertHexUsingApkSig_def Let_def)
  then show "fst (extractSignatureStage env) = ''00''"
    and "warnNoSignature \<in> set (snd (extractSignatureStage env))"
    using stage_sentinel by blast+
qed

lemma sigEnvLegacy_stage: "fst (extractSignatureStage sigEnvLegacy) = ''00''"
  by code_simp

theorem signature_from_reader_only_witness:
  "\<not> apkSigReaderJar sigEnvLegacy \<and>
   fst (extractSignatureStage sigEnvLegacy) = ''00'' \<and>
   warnNoSignature \<in> set (snd (extractSignatureStage sigEnvLegacy))"
  using signature_from_reader_only [where env = sigEnvLegacy] by (simp add: sigEnvLegacy_def)

section \<open>The strategy that is chosen\<close>

lemma editBinaryManifest_result:
  assumes "joinPath (tmpManifestEdit env) ''AndroidManifest_mod.xml'' \<notin> set fs"
  shows "fst (editBinaryManifest env fs) =
           (if manifestEditor env = Some EditorOutput
            then Some (joinPath (tmpManifestEdit env) ''AndroidManifest_mod.xml'') else None)"
proof (cases "manifestEditor env")
  case None
  then show ?thesis by (simp add: editBinaryManifest_def)
next
  case (Some outcome)
  have neq: "joinPath (tmpManifestEdit env) ''AndroidManifest_mod.xml'' \<noteq>
             joinPath (tmpManifestEdit env) ''AndroidManifest.xml''"
    by (simp add: joinPath_def)
  have neq2: "joinPath (tmpManifestEdit env) ''AndroidManifest_mod.xml'' \<noteq> tmpManifestEdit env"
    by (simp add: joinPath_def)
  show ?thesis
    using Some assms neq neq2
    by (cases outcome) (simp_all add: editBinaryManifest_def Let_def existsSync_def create_def)
qed

text \<open>
  Claim C1, as the code has it. The working directory of the editor being fresh: when the
  manifest declares an Application subclass, ApplicationHook is chosen if the class file
  is found, and the injection fails at once with an error naming the class if it is not,
  without trying the other strategies. When none is declared, ManifestSynthesis is chosen
  if the editor patches the packed manifest, and else if the manifest text can be patched;
  when neither works, ActivityFallback is chosen if the launch Activity can be injected,
  and only then does the injection fail with the injection-impossible error.
\<close>

theorem injection_strategy_priority:
  assumes fresh: "joinPath (tmpManifestEdit env) ''AndroidManifest_mod.xml'' \<notin> set fs"
  shows
  "(extractApplicationName mc = Some app \<longrightarrow>
      (findSmaliFile env dd (normalizeClassName app pkg) \<noteq> None \<longrightarrow>
         (\<exists>r. fst (planInjection env dd mc bin pkg fs) = Inr r \<and> strategy r = ApplicationHook)) \<and>
      (findSmaliFile env dd (normalizeClassName app pkg) = None \<longrightarrow>
         fst (planInjection env dd mc bin pkg fs) =
           Inl (ApplicationClassFileNotFound (normalizeClassName app pkg)))) \<and>
   (extractApplicationName mc = None \<longrightarrow>
      (manifestEditor env = Some EditorOutput \<longrightarrow>
         (\<exists>r. fst (planInjection env dd mc bin pkg fs) = Inr r \<and> strategy r = ManifestSynthesis \<and>
              binaryManifestPath r \<noteq> None)) \<and>
      (manifestEditor env \<noteq> Some EditorOutput \<and> editTextManifest env mc bin \<longrightarrow>
         (\<exists>r. fst (planInjection env dd mc bin pkg fs) = Inr r \<and> strategy r = ManifestSynthesis \<and>
              binaryManifestPath r = None)) \<and>
      (manifestEditor env \<noteq> Some EditorOutput \<and> \<not> editTextManifest env mc bin \<and>
       injectLaunchActivity env dd mc pkg \<longrightarrow>
         (\<exists>r. fst (planInjection env dd mc bin pkg fs) = Inr r \<and> strategy r = ActivityFallback)) \<and>
      (manifestEditor env \<noteq> Some EditorOutput \<and> \<not> editTextManifest env mc bin \<and>
       \<not> injectLaunchActivity env dd mc pkg \<longrightarrow>
         fst (planInjection env dd mc bin pkg fs) = Inl InjectionImpossible))"
proof (intro conjI impI)
  assume "extractApplicationName mc = Some app"
     and "findSmaliFile env dd (normalizeClassName app pkg) \<noteq> None"
  then show "\<exists>r. fst (planInjection env dd mc bin pkg fs) = Inr r \<and> strategy r = ApplicationHook"
    by (auto simp: planInjection_def Let_def)
next
  assume "extractApplicationName mc = Some app"
     and "findSmaliFile env dd (normalizeClassName app pkg) = None"
  then show "fst (planInjection env dd mc bin pkg fs) =
           Inl (ApplicationClassFileNotFound (normalizeClassName app pkg))"
    by (simp add: planInjection_def Let_def)
next
  assume "extractApplicationName mc = None" and "manifestEditor env = Some EditorOutput"
  then show "\<exists>r. fst (planInjection env dd mc bin pkg fs) = Inr r \<and> strategy r = ManifestSynthesis \<and>
              binaryManifestPath r \<noteq> None"
    using editBinaryManifest_result [OF fresh] by (simp add: planInjection_def Let_def)
next
  assume "extractApplicationName mc = None"
     and "manifestEditor env \<noteq> Some EditorOutput \<and> editTextManifest env mc bin"
  then show "\<exists>r. fst (planInjection env dd mc bin pkg fs) = Inr r \<and> strategy r = ManifestSynthesis \<and>
              binaryManifestPath r = None"
    using editBinaryManifest_result [OF fresh] by (simp add: planInjection_def Let_def)
next
  assume "extractApplicationName mc = None"
     and "manifestEditor env \<noteq> Some EditorOutput \<and> \<not> editTextManifest env mc bin \<and>
       injectLaunchActivity env dd mc pkg"
  then show "\<exists>r. fst (planInjection env dd mc bin pkg fs) = Inr r \<and> strategy r = ActivityFallback"
    using editBinaryManifest_result [OF fresh] by (simp add: planInjection_def Let_def)
next
  assume "extractApplicationName mc = None"
     and "manifestEditor env \<noteq> Some EditorOutput \<and> \<not> editTextManifest env mc bin \<and>
       \<not> injectLaunchActivity env dd mc pkg"
  then show "fst (planInjection env dd mc bin pkg fs) = Inl InjectionImpossible"
    using editBinaryManifest_result [OF fresh] by (simp add: planInjection_def Let_def)
qed

lemma manifestNoApp_name: "extractApplicationName manifestNoApp = None"
  by code_simp

lemma manifestApp_name: "extractApplicationName manifestApp = Some ''.App''"
  by code_simp

lemma hookEnv1_editor: "manifestEditor hookEnv1 = Some EditorOutput"
  by (simp add: hookEnv1_def)

lemma hookEnv1_fresh:
  "joinPath (tmpManifestEdit hookEnv1) ''AndroidManifest_mod.xml'' \<notin> set []"
  by simp

theorem injection_strategy_priority_witness:
  "extractApplicationName manifestNoApp = None \<and>
   manifestEditor hookEnv1 = Some EditorOutput \<and>
   (\<exists>r. fst (planInjection hookEnv1 ''/tmp/apk-inject-b2/decoded'' manifestNoApp False ''com.x'' [])
          = Inr r \<and> strategy r = ManifestSynthesis \<and> binaryManifestPath r \<noteq> None)"
  using injection_strategy_priority [OF hookEnv1_fresh, of manifestNoApp]
    manifestNoApp_name hookEnv1_editor
  by simp

text \<open>
  Claim C1 as stated fails: for a manifest that declares the Application class
  \<^verbatim>\<open>.App\<close> whose class file is not in the tree, the injection fails with the error naming
  \<^verbatim>\<open>com.x.App\<close>, although the editor would have patched the manifest and the launch
  Activity could have been injected.
\<close>

theorem injection_no_cascade_counterexample:
  "extractApplicationName manifestApp = Some ''.App'' \<and>
   fst (injectHookCode hookEnv1 ''/tmp/apk-inject-b2/decoded'' manifestApp ''com.x'' []) =
     Inl (ApplicationClassFileNotFound ''com.x.App'') \<and>
   fst (editBinaryManifest hookEnv1 []) \<noteq> None \<and>
   injectLaunchActivity hookEnv1 ''/tmp/apk-inject-b2/decoded'' manifestApp ''com.x''"
  by code_simp

text \<open>
  Claim C10. When the first \<^verbatim>\<open>android:name\<close> value in the scanned region of the
  \<^verbatim>\<open><application\<close> tag starts with \<^verbatim>\<open>@\<close> or \<^verbatim>\<open>android.\<close>, or is \<^verbatim>\<open>true\<close> or \<^verbatim>\<open>false\<close>,
  the analyzer reports no Application class; the injection then never takes the
  ApplicationHook path, and it takes the ManifestSynthesis path whenever the editor patches
  the packed manifest or the manifest is text that can be written (the directory of the
  editor being fresh).
\<close>

theorem excluded_application_name:
  assumes "scanningArea mc = Some area"
      and "androidName area = Some name"
      and "startsWith name ''@'' \<or> startsWith name ''android.'' \<or> name = ''true'' \<or> name = ''false''"
      and "joinPath (tmpManifestEdit env) ''AndroidManifest_mod.xml'' \<notin> set fs"
  shows "extractApplicationName mc = None \<and>
         (\<forall>r. fst (planInjection env dd mc bin pkg fs) = Inr r \<longrightarrow> strategy r \<noteq> ApplicationHook) \<and>
         (manifestEditor env = Some EditorOutput \<or> (\<not> bin \<and> \<not> manifestWriteFails env) \<longrightarrow>
            (\<exists>r. fst (planInjection env dd mc bin pkg fs) = Inr r \<and> strategy r = ManifestSynthesis))"
proof -
  from assms(1-3) have none: "extractApplicationName mc = None"
    by (simp add: extractApplicationName_def excludedName_def)
  from assms(1) have inc: "includesStr mc ''<application''"
    by (auto simp: scanningArea_def includesStr_def split: option.splits)
  have "strategy r \<noteq> ApplicationHook" if "fst (planInjection env dd mc bin pkg fs) = Inr r" for r
    using that none by (auto simp: planInjection_def Let_def split: if_splits)
  moreover have "\<exists>r. fst (planInjection env dd mc bin pkg fs) = Inr r \<and> strategy r = ManifestSynthesis"
    if "manifestEditor env = Some EditorOutput \<or> (\<not> bin \<and> \<not> manifestWriteFails env)"
    using that none inc editBinaryManifest_result [OF assms(4)]
    by (auto simp: planInjection_def Let_def editTextManifest_def)
  ultimately show ?thesis using none by blast
qed

lemma manifestThemeName_area:
  "scanningArea manifestThemeName =
     Some (''<application android:name='' @ dq @ ''android.app.Application'' @ dq @ ''>'')"
  by code_simp

lemma manifestThemeName_name:
  "androidName (''<application android:name='' @ dq @ ''android.app.Application'' @ dq @ ''>'')
     = Some ''android.app.Application''"
  by code_simp

lemma themeName_excluded:
  "startsWith ''android.app.Application'' ''@'' \<or> startsWith ''android.app.Application'' ''android.'' \<or>
   ''android.app.Application'' = ''true'' \<or> ''android.app.Application'' = ''false''"
  by code_simp

theorem excluded_application_name_witness:
  "scanningArea manifestThemeName =
     Some (''<application android:name='' @ dq @ ''android.app.Application'' @ dq @ ''>'') \<and>
   androidName (''<application android:name='' @ dq @ ''android.app.Application'' @ dq @ ''>'')
     = Some ''android.app.Application'' \<and>
   startsWith ''android.app.Application'' ''android.'' \<and>
   extractApplicationName manifestThemeName = None \<and>
   (\<exists>r. fst (planInjection hookEnv1 ''/tmp/apk-inject-b2/decoded'' manifestThemeName False
              ''com.x'' []) = Inr r \<and> strategy r = ManifestSynthesis)"
  using excluded_application_name
          [OF manifestThemeName_area manifestThemeName_name themeName_excluded hookEnv1_fresh,
           of "''/tmp/apk-inject-b2/decoded''" False "''com.x''"]
        manifestThemeName_area manifestThemeName_name hookEnv1_editor
  by (simp add: startsWith_def)

section \<open>The entries the merge keeps\<close>











section \<open>The result of a job and the files it leaves\<close>

lemma create_mem: "x \<in> set (create p fs) \<longleftrightarrow> x = p \<or> x \<in> set fs"
  by (auto simp: create_def)

lemma rmRecursive_mem: "x \<in> set (rmRecursive d fs) \<longleftrightarrow> x \<in> set fs \<and> \<not> under d x"
  by (auto simp: rmRecursive_def)

lemma under_joinPath: "under d (joinPath d x)"
  by (simp add: under_def joinPath_def)

lemma under_self: "under d d"
  by (simp add: under_def)

lemma copyFileSync_Inr: "copyFileSync src dst fs = Inr fs' \<Longrightarrow> fs' = create dst fs"
  by (auto simp: copyFileSync_def split: if_splits)

lemma copyFileSync_Inl: "copyFileSync src dst fs = Inl e \<Longrightarrow> \<not> existsSync fs src"
  by (auto simp: copyFileSync_def split: if_splits)

lemma editBinaryManifest_keeps:
  assumes "\<not> under (tmpManifestEdit env) out"
  shows "out \<in> set (snd (editBinaryManifest env fs)) \<longleftrightarrow> out \<in> set fs"
proof -
  from assms have "out \<noteq> tmpManifestEdit env"
    and "out \<noteq> joinPath (tmpManifestEdit env) ''AndroidManifest.xml''"
    and "out \<noteq> joinPath (tmpManifestEdit env) ''AndroidManifest_mod.xml''"
    using under_self under_joinPath by metis+
  then show ?thesis
    by (auto simp: editBinaryManifest_def Let_def create_mem split: option.splits)
qed

lemma planInjection_keeps:
  assumes "\<not> under (tmpManifestEdit env) out"
  shows "out \<in> set (snd (planInjection env dd mc bin pkg fs)) \<longleftrightarrow> out \<in> set fs"
  using editBinaryManifest_keeps [OF assms]
  by (simp add: planInjection_def Let_def split: option.splits)

lemma injectHookCode_keeps:
  assumes "\<not> under (tmpManifestEdit env) out"
  shows "out \<in> set (snd (injectHookCode env dd buf pkg fs)) \<longleftrightarrow> out \<in> set fs"
  using planInjection_keeps [OF assms]
  by (simp add: injectHookCode_def Let_def split: sum.splits)

lemma mergeFiles_keeps:
  assumes "\<not> under (tmpDexMerge env) out" "out \<noteq> merged"
  shows "out \<in> set (snd (mergeFiles env original merged fs)) \<longleftrightarrow> out \<in> set fs"
proof -
  from assms(1) have "out \<noteq> tmpDexMerge env" using under_self by metis
  with assms show ?thesis
    by (auto simp: mergeFiles_def Let_def rmRecursive_mem create_mem
        dest: copyFileSync_Inr split: sum.splits)
qed

lemma resignApk_keeps:
  assumes "out \<noteq> replaceFirst ''.apk'' ''_signed.apk'' apkPath"
  shows "out \<in> set (snd (resignApk env apkPath fs)) \<longleftrightarrow> out \<in> set fs"
  using assms
  by (auto simp: resignApk_def Let_def create_mem split: option.splits)

lemma pipeline_outcome:
  assumes t: "\<not> under tempDir out"
      and d: "\<not> under (tmpDexMerge env) out"
      and m: "\<not> under (tmpManifestEdit (hookEnv env)) out"
      and s: "out \<noteq> replaceFirst ''.apk'' ''_signed.apk'' (joinPath tempDir ''aligned.apk'')"
  shows "case fst (pipeline env apkPath tempDir out fs) of
           Inr p \<Rightarrow> p = out \<and> out \<in> set (snd (pipeline env apkPath tempDir out fs))
         | Inl e \<Rightarrow> (out \<in> set (snd (pipeline env apkPath tempDir out fs)) \<longleftrightarrow> out \<in> set fs)"
proof -
  from t have n: "out \<noteq> joinPath tempDir ''decoded''" "out \<noteq> joinPath tempDir ''dist.apk''"
    "out \<noteq> joinPath tempDir ''merged.apk''" "out \<noteq> joinPath tempDir ''aligned.apk''"
    using under_joinPath by metis+
  define pk where "pk = (if aaptPackageName env \<noteq> [] \<and> aaptPackageName env \<noteq> ''Unknown''
                         then aaptPackageName env else [])"
  define fs1 where "fs1 = create (joinPath tempDir ''decoded'') fs"
  define h where "h = injectHookCode (hookEnv env) (joinPath tempDir ''decoded'')
                        (manifestBuffer env) pk fs1"
  define fs3 where "fs3 = create (joinPath tempDir ''dist.apk'') (snd h)"
  define mg where "mg = mergeFiles env apkPath (joinPath tempDir ''merged.apk'') fs3"
  define al where "al = (if zipalignExists env
                then (case zipalignRun env of
                        Some e \<Rightarrow> Inl e
                      | None \<Rightarrow> Inr (create (joinPath tempDir ''aligned.apk'') (snd mg)))
                else copyFileSync (joinPath tempDir ''merged.apk'')
                       (joinPath tempDir ''aligned.apk'') (snd mg))"
  have k1: "out \<in> set fs1 \<longleftrightarrow> out \<in> set fs" using n by (simp add: fs1_def create_mem)
  have k2: "out \<in> set (snd h) \<longleftrightarrow> out \<in> set fs"
    using injectHookCode_keeps [OF m] k1 by (simp add: h_def)
  have k3: "out \<in> set fs3 \<longleftrightarrow> out \<in> set fs" using n k2 by (simp add: fs3_def create_mem)
  have k4: "out \<in> set (snd mg) \<longleftrightarrow> out \<in> set fs"
    using mergeFiles_keeps [OF d n(3)] k3 by (simp add: mg_def)
  have unfold: "pipeline env apkPath tempDir out fs =
     (case decompileRun env of
           Some e \<Rightarrow> (Inl e, fs)
         | None \<Rightarrow>
      (case fst h of
            Inl e \<Rightarrow> (Inl (hookErrorMessage e), snd h)
          | Inr hook \<Rightarrow>
      (case recompileRun env of
         Some e \<Rightarrow> (Inl e, snd h)
       | None \<Rightarrow>
      (case fst mg of
            Some e \<Rightarrow> (Inl e, snd mg)
          | None \<Rightarrow>
      (case al of
            Inl e \<Rightarrow> (Inl e, snd mg)
          | Inr fs5 \<Rightarrow>
      (let sg = resignApk env (joinPath tempDir ''aligned.apk'') fs5;
           fs6 = snd sg
       in if \<not> success (fst sg) then (Inl (message (fst sg)), fs6)
          else
            let signedTemp = replaceFirst ''.apk'' ''_signed.apk'' (joinPath tempDir ''aligned.apk'')
            in if existsSync fs6 signedTemp
               then (case copyFileSync signedTemp out fs6 of
                       Inl e \<Rightarrow> (Inl e, fs6)
                     | Inr fs7 \<Rightarrow> (Inr out, fs7))
               else (Inl msgSignedMissing, fs6)))))))"
    unfolding pipeline_def Let_def pk_def fs1_def h_def fs3_def mg_def al_def ..
  show ?thesis
  proof (cases "decompileRun env")
    case (Some e)
    then show ?thesis by (simp add: unfold)
  next
    case dec: None
    show ?thesis
    proof (cases "fst h")
      case (Inl e)
      then show ?thesis using dec k2 by (simp add: unfold)
    next
      case hk: (Inr hook)
      show ?thesis
      proof (cases "recompileRun env")
        case (Some e)
        then show ?thesis using dec hk k2 by (simp add: unfold)
      next
        case rec: None
        show ?thesis
        proof (cases "fst mg")
          case (Some e)
          then show ?thesis using dec hk rec k4 by (simp add: unfold)
        next
          case mrg: None
          show ?thesis
          proof (cases al)
            case (Inl e)
            then show ?thesis using dec hk rec mrg k4 by (simp add: unfold)
          next
            case aln: (Inr fs5)
            have "fs5 = create (joinPath tempDir ''aligned.apk'') (snd mg)"
              using aln by (auto simp: al_def split: if_splits option.splits dest: copyFileSync_Inr)
            then have k5: "out \<in> set fs5 \<longleftrightarrow> out \<in> set fs" using n k4 by (simp add: create_mem)
            define sg where "sg = resignApk env (joinPath tempDir ''aligned.apk'') fs5"
            have k6: "out \<in> set (snd sg) \<longleftrightarrow> out \<in> set fs"
              using resignApk_keeps [OF s] k5 by (simp add: sg_def)
            have u2: "pipeline env apkPath tempDir out fs =
               (if \<not> success (fst sg) then (Inl (message (fst sg)), snd sg)
                else if existsSync (snd sg)
                          (replaceFirst ''.apk'' ''_signed.apk'' (joinPath tempDir ''aligned.apk''))
                     then (case copyFileSync
                                 (replaceFirst ''.apk'' ''_signed.apk'' (joinPath tempDir ''aligned.apk''))
                                 out (snd sg) of
                             Inl e \<Rightarrow> (Inl e, snd sg)
                           | Inr fs7 \<Rightarrow> (Inr out, fs7))
                     else (Inl msgSignedMissing, snd sg))"
              using dec hk rec mrg aln unfolding sg_def by (simp add: unfold Let_def)
            show ?thesis
              using k6
              by (auto simp: u2 create_mem split: sum.splits dest!: copyFileSync_Inr)
          qed
        qed
      qed
    qed
  qed
qed

text \<open>
  Claim C6. Let \<open>out\<close> be the expected output path, and let it be none of the job's
  temporary paths. When the result says success, it carries \<open>out\<close> and a file exists
  there. When it says failure, it carries no path and the failure text followed by the
  text of the error, and \<open>out\<close> exists after the run exactly if it existed before: the
  run has created nothing there.
\<close>

theorem result_never_partial:
  assumes o: "out = replaceFirst ''.apk'' ''_hooked_signed.apk'' apkPath"
      and t: "\<not> under (tmpInject env) out"
      and d: "\<not> under (tmpDexMerge env) out"
      and m: "\<not> under (tmpManifestEdit (hookEnv env)) out"
      and s: "out \<noteq> replaceFirst ''.apk'' ''_signed.apk'' (joinPath (tmpInject env) ''aligned.apk'')"
  shows "(success (fst (injectAndResignApk env apkPath fs)) \<longrightarrow>
            outputPath (fst (injectAndResignApk env apkPath fs)) = Some out \<and>
            existsSync (snd (injectAndResignApk env apkPath fs)) out) \<and>
         (\<not> success (fst (injectAndResignApk env apkPath fs)) \<longrightarrow>
            outputPath (fst (injectAndResignApk env apkPath fs)) = None \<and>
            (\<exists>e. message (fst (injectAndResignApk env apkPath fs)) = msgProcessFailed @ e) \<and>
            (existsSync (snd (injectAndResignApk env apkPath fs)) out \<longleftrightarrow> existsSync fs out))"
proof -
  define fs0 where "fs0 = create (tmpInject env) fs"
  define p where "p = pipeline env apkPath (tmpInject env) out fs0"
  from t have "out \<noteq> tmpInject env" using under_self by metis
  then have k0: "out \<in> set fs0 \<longleftrightarrow> out \<in> set fs" by (simp add: fs0_def create_mem)
  have r: "injectAndResignApk env apkPath fs =
             ((case fst p of
                 Inr path \<Rightarrow> \<lparr>success = True, message = msgInjectSignOk, outputPath = Some path\<rparr>
               | Inl e \<Rightarrow> \<lparr>success = False, message = msgProcessFailed @ e, outputPath = None\<rparr>),
              if existsSync (snd p) (tmpInject env) then rmRecursive (tmpInject env) (snd p)
              else snd p)"
    unfolding injectAndResignApk_def Let_def p_def fs0_def o ..
  have fin: "existsSync (if existsSync (snd p) (tmpInject env)
                         then rmRecursive (tmpInject env) (snd p) else snd p) out
             \<longleftrightarrow> out \<in> set (snd p)"
    using t by (simp add: existsSync_def rmRecursive_mem)
  from pipeline_outcome [OF t d m s, of apkPath fs0]
  have oc: "case fst p of
              Inr q \<Rightarrow> q = out \<and> out \<in> set (snd p)
            | Inl e \<Rightarrow> (out \<in> set (snd p) \<longleftrightarrow> out \<in> set fs0)"
    by (simp only: p_def)
  show ?thesis
  proof (cases "fst p")
    case (Inl e)
    with oc k0 fin show ?thesis by (simp add: r existsSync_def)
  next
    case (Inr q)
    with oc fin show ?thesis by (simp add: r)
  qed
qed

lemma job1_out: "''/data/app_hooked_signed.apk'' = replaceFirst ''.apk'' ''_hooked_signed.apk'' ''/data/app.apk''"
  by code_simp

lemma jobBad_t: "\<not> under (tmpInject jobEnvBadKeystore) ''/data/app_hooked_signed.apk''"
  by code_simp

lemma jobBad_d: "\<not> under (tmpDexMerge jobEnvBadKeystore) ''/data/app_hooked_signed.apk''"
  by code_simp

lemma jobBad_m: "\<not> under (tmpManifestEdit (hookEnv jobEnvBadKeystore)) ''/data/app_hooked_signed.apk''"
  by code_simp

lemma jobBad_s: "''/data/app_hooked_signed.apk'' \<noteq>
   replaceFirst ''.apk'' ''_signed.apk'' (joinPath (tmpInject jobEnvBadKeystore) ''aligned.apk'')"
  by code_simp

lemma jobBad_fails: "\<not> success (fst (injectAndResignApk jobEnvBadKeystore ''/data/app.apk'' [''/data/app.apk'']))"
  by code_simp

theorem result_never_partial_witness:
  "\<not> success (fst (injectAndResignApk jobEnvBadKeystore ''/data/app.apk'' [''/data/app.apk''])) \<and>
   outputPath (fst (injectAndResignApk jobEnvBadKeystore ''/data/app.apk'' [''/data/app.apk''])) = None \<and>
   \<not> existsSync (snd (injectAndResignApk jobEnvBadKeystore ''/data/app.apk'' [''/data/app.apk'']))
        ''/data/app_hooked_signed.apk''"
  using result_never_partial [OF job1_out jobBad_t jobBad_d jobBad_m jobBad_s, of "[''/data/app.apk'']"]
    jobBad_fails
  by (simp add: existsSync_def)

text \<open>
  Claim C7. The claim is that every temporary directory a job creates is deleted on all
  exit paths. The working directory of the job and the directory of the merge step are
  removed by a \<^verbatim>\<open>finally\<close>; the directory the injection makes for the manifest editor is
  not. For a package that declares no Application class, with the editor's jar present,
  the job succeeds, its working directory is gone, and the directory
  \<^verbatim>\<open>/tmp/manifest-edit-a1\<close>, which did not exist before, is still there; it is still
  there as well when the same job fails at the signing step.
\<close>

theorem manifest_edit_directory_left_behind:
  "success (fst (injectAndResignApk jobEnv1 ''/data/app.apk'' [''/data/app.apk''])) \<and>
   existsSync (snd (injectAndResignApk jobEnv1 ''/data/app.apk'' [''/data/app.apk'']))
     ''/tmp/manifest-edit-a1'' \<and>
   \<not> existsSync [''/data/app.apk''] ''/tmp/manifest-edit-a1'' \<and>
   \<not> existsSync (snd (injectAndResignApk jobEnv1 ''/data/app.apk'' [''/data/app.apk'']))
     ''/tmp/apk-inject-b2'' \<and>
   \<not> existsSync (snd (injectAndResignApk jobEnv1 ''/data/app.apk'' [''/data/app.apk'']))
     ''/tmp/dex-merge-c3'' \<and>
   \<not> success (fst (injectAndResignApk jobEnvBadKeystore ''/data/app.apk'' [''/data/app.apk''])) \<and>
   existsSync (snd (injectAndResignApk jobEnvBadKeystore ''/data/app.apk'' [''/data/app.apk'']))
     ''/tmp/manifest-edit-a1''"
  by code_simp

end
